theory Spec2Isabelle
  imports Main "HOL-Library.AList" "HOL-Library.Char_ord" "HOL-Library.List_Lexorder"
begin

section \<open>Python dictionaries\<close>

text \<open>
  A Python \<open>dict\<close> keeps its keys in insertion order: assigning to a key that is present
  replaces the value in place, assigning to a new key appends it. An association list with
  \<open>AList.update\<close> behaves the same way; \<open>map_of\<close> is the lookup.
\<close>

type_synonym ('k, 'v) dict = "('k \<times> 'v) list"

definition dict_get :: "('k, 'v) dict \<Rightarrow> 'k \<Rightarrow> 'v option" where
  "dict_get d k = map_of d k"

definition dict_set :: "('k, 'v) dict \<Rightarrow> 'k \<Rightarrow> 'v \<Rightarrow> ('k, 'v) dict" where
  "dict_set d k v = AList.update k v d"

definition dict_keys :: "('k, 'v) dict \<Rightarrow> 'k list" where
  "dict_keys d = map fst d"

definition dict_values :: "('k, 'v) dict \<Rightarrow> 'v list" where
  "dict_values d = map snd d"

section \<open>Homology groups (\<open>_homologydb.py\<close>)\<close>

type_synonym gene_id = string
type_synonym rel_type = string

text \<open>
  \<open>class homolog_group\<close>: a relationship label and a mutable set of gene ids.
  \<open>__eq__\<close> compares both fields, which is the equality of the record.
\<close>

record homolog_group =
  relationship :: rel_type
  gene_ids :: "gene_id set"

text \<open>\<open>homolog_group(relationship=rel_type)\<close>: \<open>__post_init__\<close> gives an empty set.\<close>

definition new_group :: "rel_type \<Rightarrow> homolog_group" where
  "new_group rt = \<lparr>relationship = rt, gene_ids = {}\<rparr>"

subsection \<open>The clusterer \<open>grouped_related\<close>\<close>

text \<open>
  The loop of \<open>grouped_related\<close> stores the same \<open>homolog_group\<close> object under several
  gene ids and updates its \<open>gene_ids\<close> in place (\<open>val.gene_ids |= pair\<close>), so the model keeps
  the objects in a store: a list of groups, the address of an object being its index. The
  dictionaries hold addresses. \<open>__hash__\<close> of a group uses \<open>id(self.gene_ids)\<close>, so the
  final \<open>set(groups.values())\<close> keeps one entry per object, that is per address.
\<close>

type_synonym addr = nat

record grouped_state =
  store :: "homolog_group list"
  grouped :: "(rel_type, (gene_id, addr) dict) dict"

definition init_grouped :: grouped_state where
  "init_grouped = \<lparr>store = [], grouped = []\<rparr>"

text \<open>
  The \<open>if / elif / else\<close> that picks \<open>val\<close>: the group of \<open>gene_id_1\<close> when it has one, else
  the group of \<open>gene_id_2\<close>, else a new object (allocated at the end of the store).
\<close>

definition pick_val ::
  "homolog_group list \<Rightarrow> (gene_id, addr) dict \<Rightarrow> rel_type \<Rightarrow> gene_id \<Rightarrow> gene_id
    \<Rightarrow> homolog_group list \<times> addr" where
  "pick_val st rel rt g1 g2 =
     (case dict_get rel g1 of
        Some a \<Rightarrow> (st, a)
      | None \<Rightarrow>
          (case dict_get rel g2 of
             Some a \<Rightarrow> (st, a)
           | None \<Rightarrow> (st @ [new_group rt], length st)))"

text \<open>\<open>val.gene_ids |= pair\<close>: an in-place union on the object at address \<open>a\<close>.\<close>

definition add_genes :: "homolog_group list \<Rightarrow> addr \<Rightarrow> gene_id set \<Rightarrow> homolog_group list" where
  "add_genes st a pair = st[a := (st ! a)\<lparr>gene_ids := gene_ids (st ! a) \<union> pair\<rparr>]"

text \<open>\<open>grouped.get(rel_type, {})\<close>.\<close>

definition rel_of :: "grouped_state \<Rightarrow> rel_type \<Rightarrow> (gene_id, addr) dict" where
  "rel_of s rt = (case dict_get (grouped s) rt of None \<Rightarrow> [] | Some d \<Rightarrow> d)"

text \<open>One iteration of the loop over \<open>data\<close>.\<close>

definition grouped_step :: "grouped_state \<Rightarrow> rel_type \<times> gene_id \<times> gene_id \<Rightarrow> grouped_state" where
  "grouped_step s row =
     (case row of (rt, g1, g2) \<Rightarrow>
        (let rel = rel_of s rt;
             (st1, val) = pick_val (store s) rel rt g1 g2;
             st2 = add_genes st1 val {g1, g2};
             rel' = dict_set (dict_set rel g1 val) g2 val
         in \<lparr>store = st2, grouped = dict_set (grouped s) rt rel'\<rparr>))"

definition grouped_loop :: "(rel_type \<times> gene_id \<times> gene_id) list \<Rightarrow> grouped_state" where
  "grouped_loop data = foldl grouped_step init_grouped data"

text \<open>
  \<open>reduced[rel_type] = tuple(set(groups.values()))\<close>: the distinct objects, read from the
  store. Python leaves the order of the tuple open; the model lists the objects in the order
  of their last occurrence among the values.
\<close>

definition reduce_groups :: "homolog_group list \<Rightarrow> (gene_id, addr) dict \<Rightarrow> homolog_group list" where
  "reduce_groups st groups = map (\<lambda>a. st ! a) (remdups (dict_values groups))"

definition grouped_related ::
  "(rel_type \<times> gene_id \<times> gene_id) list \<Rightarrow> (rel_type, homolog_group list) dict" where
  "grouped_related data =
     (let s = grouped_loop data
      in map (\<lambda>(rt, groups). (rt, reduce_groups (store s) groups)) (grouped s))"

section \<open>Python errors\<close>

text \<open>An exception that leaves a function is the \<open>Inl\<close> branch of its result.\<close>

datatype py_error = TypeError | KeyError | ValueError | AttributeError

section \<open>Text helpers\<close>

text \<open>
  The attribute text is modelled for ASCII input: a letter is one of \<open>a-z\<close>, \<open>A-Z\<close>, a word
  character (the \<open>\w\<close> of Python's \<open>re\<close>) is a letter, a digit or the underscore.
\<close>

definition ascii_lowercase :: string where
  "ascii_lowercase = ''abcdefghijklmnopqrstuvwxyz''"

definition ascii_uppercase :: string where
  "ascii_uppercase = ''ABCDEFGHIJKLMNOPQRSTUVWXYZ''"

definition is_alpha :: "char \<Rightarrow> bool" where
  "is_alpha c = (c \<in> set (ascii_lowercase @ ascii_uppercase))"

definition is_word_char :: "char \<Rightarrow> bool" where
  "is_word_char c = (is_alpha c \<or> c \<in> set ''0123456789'' \<or> c = CHR ''_'')"

definition lower_char :: "char \<Rightarrow> char" where
  "lower_char c = (case map_of (zip ascii_uppercase ascii_lowercase) c of Some l \<Rightarrow> l | None \<Rightarrow> c)"

text \<open>\<open>str.lower()\<close>.\<close>

definition lower :: "string \<Rightarrow> string" where
  "lower s = map lower_char s"

definition starts_with :: "string \<Rightarrow> string \<Rightarrow> bool" where
  "starts_with pat s = (take (length pat) s = pat)"

text \<open>\<open>pat in s\<close> on strings.\<close>

fun contains :: "string \<Rightarrow> string \<Rightarrow> bool" where
  "contains pat [] = (pat = [])"
| "contains pat (c # cs) = (starts_with pat (c # cs) \<or> contains pat cs)"

text \<open>\<open>str(n)\<close> for an integer, as the f-string \<open>f"unknown-{num_fake_ids}"\<close> prints it.\<close>

definition digit_char :: "nat \<Rightarrow> char" where
  "digit_char d = ''0123456789'' ! (d mod 10)"

function str_nat :: "nat \<Rightarrow> string" where
  "str_nat n = (if n < 10 then [digit_char n] else str_nat (n div 10) @ [digit_char (n mod 10)])"
  by pat_completeness auto
termination
  by (relation "measure (\<lambda>n. n)") auto

definition str_int :: "int \<Rightarrow> string" where
  "str_int i = (if i < 0 then CHR ''-'' # str_nat (nat (- i)) else str_nat (nat i))"

section \<open>The record normalizer (\<open>_genomedb.py\<close>)\<close>

subsection \<open>The regular expressions\<close>

text \<open>
  \<open>_typed_id = re.compile(r"\b[a-z]+:", flags=re.IGNORECASE)\<close> and \<open>_typed_id.sub(repl, s)\<close>.
  A match starts where a run of letters begins at a word boundary (the character before is
  not a word character) and the whole run is followed by a colon; \<open>repl\<close> is applied to the
  match, colon included, and the scan goes on after the colon. \<open>prev\<close> tells whether the
  character before the current position is a word character.
\<close>

function typed_id_sub :: "(string \<Rightarrow> string) \<Rightarrow> bool \<Rightarrow> string \<Rightarrow> string" where
  "typed_id_sub repl prev [] = []"
| "typed_id_sub repl prev (c # cs) =
     (if \<not> prev \<and> is_alpha c \<and> dropWhile is_alpha (c # cs) \<noteq> []
         \<and> hd (dropWhile is_alpha (c # cs)) = CHR '':''
      then repl (takeWhile is_alpha (c # cs) @ '':'')
           @ typed_id_sub repl False (tl (dropWhile is_alpha (c # cs)))
      else c # typed_id_sub repl (is_word_char c) cs)"
  by pat_completeness auto
termination
proof (relation "measure (\<lambda>(repl, prev, s). length s)")
  show "wf (measure (\<lambda>(repl, prev, s). length s))"
    by simp
next
  fix repl :: "string \<Rightarrow> string" and prev :: bool and c :: char and cs :: string
  assume "\<not> prev \<and> is_alpha c \<and> dropWhile is_alpha (c # cs) \<noteq> []
      \<and> hd (dropWhile is_alpha (c # cs)) = CHR '':''"
  then have "dropWhile is_alpha (c # cs) \<noteq> []"
    by blast
  then have "length (tl (dropWhile is_alpha (c # cs))) < length (dropWhile is_alpha (c # cs))"
    by simp
  also have "\<dots> \<le> length (c # cs)"
    by (rule length_dropWhile_le)
  finally show "((repl, False, tl (dropWhile is_alpha (c # cs))), repl, prev, c # cs)
      \<in> measure (\<lambda>(repl, prev, s). length s)"
    by simp
next
  fix repl :: "string \<Rightarrow> string" and prev :: bool and c :: char and cs :: string
  show "((repl, is_word_char c, cs), repl, prev, c # cs) \<in> measure (\<lambda>(repl, prev, s). length s)"
    by simp
qed

text \<open>\<open>tidy_gff3_stableids\<close>: the type prefix of a stable id in lower case.\<close>

definition tidy_gff3_stableids :: "string \<Rightarrow> string" where
  "tidy_gff3_stableids a = typed_id_sub lower False a"

text \<open>
  \<open>re.compile(r"(?<=\bKEY=)[^;]+").search(text)\<close> for the three keys \<open>ID=\<close>, \<open>exon_id=\<close> and
  \<open>Parent=\<close>: the first place where the key stands at a word boundary and is followed by at
  least one character other than \<open>;\<close>; the match is the run of such characters.
\<close>

fun search_field :: "string \<Rightarrow> bool \<Rightarrow> string \<Rightarrow> string option" where
  "search_field key prev [] = None"
| "search_field key prev (c # cs) =
     (if \<not> prev \<and> starts_with key (c # cs)
         \<and> takeWhile (\<lambda>x. x \<noteq> CHR '';'') (drop (length key) (c # cs)) \<noteq> []
      then Some (takeWhile (\<lambda>x. x \<noteq> CHR '';'') (drop (length key) (c # cs)))
      else search_field key (is_word_char c) cs)"

subsection \<open>\<open>EnsemblGffRecord\<close>\<close>

text \<open>
  The slots of cogent3's \<open>GffRecord\<close> and the added \<open>feature_id\<close>. A slot that the code
  tests against \<open>None\<close> (or reads with \<open>or\<close>) is an option.
\<close>

record gff_record =
  seqid :: string
  source :: string
  biotype :: string
  name :: "string option"
  parent_id :: "string option"
  start :: "int option"
  stop :: "int option"
  spans :: "(int \<times> int) list option"
  score :: string
  strand :: string
  phase :: string
  comments :: "string option"
  attrs :: "string option"
  feature_id :: "nat option"

text \<open>\<open>self.name or ""\<close>.\<close>

definition name_or_empty :: "gff_record \<Rightarrow> string" where
  "name_or_empty r = (case name r of None \<Rightarrow> [] | Some x \<Rightarrow> x)"

text \<open>The property \<open>stableid\<close>: \<open>_typed_id.sub("", self.name or "")\<close>.\<close>

definition stableid :: "gff_record \<Rightarrow> string" where
  "stableid r = typed_id_sub (\<lambda>m. []) False (name_or_empty r)"

text \<open>The property \<open>is_canonical\<close>: \<open>"Ensembl_canonical" in (self.attrs or "")\<close>.\<close>

definition is_canonical :: "gff_record \<Rightarrow> bool" where
  "is_canonical r = contains ''Ensembl_canonical'' (case attrs r of None \<Rightarrow> [] | Some a \<Rightarrow> a)"

text \<open>
  \<open>update_from_attrs\<close>. \<open>"ID=" in attrs\<close> raises \<open>TypeError\<close> when \<open>attrs\<close> is \<open>None\<close>.
\<close>

definition update_from_attrs :: "gff_record \<Rightarrow> py_error + gff_record" where
  "update_from_attrs r =
     (case attrs r of
        None \<Rightarrow> Inl TypeError
      | Some a \<Rightarrow>
          (let key = (if contains ''ID='' a then ''ID='' else ''exon_id='');
               attr = tidy_gff3_stableids a;
               r1 = (case search_field key False attr of
                       Some v \<Rightarrow> r\<lparr>name := Some v\<rparr>
                     | None \<Rightarrow> r);
               r2 = (case search_field ''Parent='' False attr of
                       Some v \<Rightarrow> r1\<lparr>parent_id := Some (takeWhile (\<lambda>x. x \<noteq> CHR '','') v)\<rparr>
                     | None \<Rightarrow> r1)
           in Inr (if CHR '':'' \<in> set (name_or_empty r2)
                   then r2\<lparr>biotype :=
                          (if takeWhile (\<lambda>x. x \<noteq> CHR '':'') (name_or_empty r2) = ''transcript''
                           then ''mrna''
                           else takeWhile (\<lambda>x. x \<noteq> CHR '':'') (name_or_empty r2))\<rparr>
                   else r2)))"

subsection \<open>\<open>custom_gff_parser\<close>\<close>

text \<open>
  \<open>reduced\<close> is a dictionary whose keys are the records themselves; \<open>__hash__\<close> and \<open>__eq__\<close>
  of \<open>EnsemblGffRecord\<close> use the name only (and \<open>__eq__\<close> accepts a plain string), so the
  dictionary is keyed by name. The state of the loop is \<open>reduced\<close> and \<open>num_fake_ids\<close>.
\<close>

type_synonym parser_state = "(string, gff_record) dict \<times> int"

text \<open>\<open>if not record.name: record.name = f"unknown-{num_fake_ids}"; num_fake_ids += 1\<close>.\<close>

definition name_record :: "gff_record \<Rightarrow> int \<Rightarrow> gff_record \<times> int" where
  "name_record r n =
     (if name_or_empty r = [] then (r\<lparr>name := Some (''unknown-'' @ str_int n)\<rparr>, n + 1)
      else (r, n))"

text \<open>
  The three updates of the stored record. \<open>spans.append\<close> on \<open>None\<close> raises
  \<open>AttributeError\<close>; \<open>min\<close> and \<open>max\<close> with a \<open>None\<close> argument raise \<open>TypeError\<close>.
\<close>

definition merge_span :: "gff_record \<Rightarrow> gff_record \<Rightarrow> py_error + gff_record" where
  "merge_span stored r =
     (case spans stored of
        None \<Rightarrow> Inl AttributeError
      | Some sp \<Rightarrow>
          (case (start stored, start r, stop stored, stop r) of
             (Some s0, Some s, Some e0, Some e) \<Rightarrow>
               Inr (stored\<lparr>spans := Some (sp @ [(s, e)]), start := Some (min s0 s),
                      stop := Some (max e0 e)\<rparr>)
           | _ \<Rightarrow> Inl TypeError))"

text \<open>
  One iteration. For a new name the record itself is stored, with \<open>spans or []\<close>, and the
  three updates then act on it; for a known name they act on the record stored first.
\<close>

definition parser_step :: "parser_state \<Rightarrow> gff_record \<Rightarrow> py_error + parser_state" where
  "parser_step s r0 =
     (case s of (reduced, n) \<Rightarrow>
        (case update_from_attrs r0 of
           Inl e \<Rightarrow> Inl e
         | Inr r1 \<Rightarrow>
             (let (r2, n') = name_record r1 n;
                  k = name_or_empty r2;
                  r3 = r2\<lparr>spans := Some (case spans r2 of None \<Rightarrow> [] | Some sp \<Rightarrow> sp)\<rparr>;
                  (stored, r) = (case dict_get reduced k of None \<Rightarrow> (r3, r3) | Some x \<Rightarrow> (x, r2))
              in (case merge_span stored r of
                    Inl e \<Rightarrow> Inl e
                  | Inr stored' \<Rightarrow> Inr (dict_set reduced k stored', n')))))"

fun parser_loop :: "parser_state \<Rightarrow> gff_record list \<Rightarrow> py_error + parser_state" where
  "parser_loop s [] = Inr s"
| "parser_loop s (r # rs) =
     (case parser_step s r of Inl e \<Rightarrow> Inl e | Inr s' \<Rightarrow> parser_loop s' rs)"

text \<open>
  The nine columns of an annotation line, as cogent3's \<open>gff_parser\<close> (a library, not part of
  this repository) reads them: the coordinates are integers already. \<open>gff_parser\<close> calls
  \<open>make_record\<close> with the column values only, so \<open>name\<close>, \<open>parent_id\<close> and \<open>spans\<close> of the
  record it yields are \<open>None\<close>.
\<close>

record gff_line =
  l_seqid :: string
  l_source :: string
  l_type :: string
  l_start :: int
  l_stop :: int
  l_score :: string
  l_strand :: string
  l_phase :: string
  l_attributes :: string

definition make_record :: "gff_line \<Rightarrow> gff_record" where
  "make_record l =
     \<lparr>seqid = l_seqid l, source = l_source l, biotype = l_type l, name = None,
      parent_id = None, start = Some (l_start l), stop = Some (l_stop l), spans = None,
      score = l_score l, strand = l_strand l, phase = l_phase l, comments = None,
      attrs = Some (l_attributes l), feature_id = None\<rparr>"

definition custom_gff_parser :: "gff_line list \<Rightarrow> int \<Rightarrow> py_error + parser_state" where
  "custom_gff_parser lines num_fake_ids = parser_loop ([], num_fake_ids) (map make_record lines)"

text \<open>
  The record a line yields once \<open>update_from_attrs\<close> has run and a missing name has been
  synthesized from the counter \<open>n\<close>, with the counter after it. Its name is the identifier
  under which the line is filed.
\<close>

definition line_record :: "gff_line \<Rightarrow> int \<Rightarrow> (gff_record \<times> int) option" where
  "line_record l n =
     (case update_from_attrs (make_record l) of
        Inl e \<Rightarrow> None
      | Inr r1 \<Rightarrow> Some (name_record r1 n))"

text \<open>
  \<open>spans.min()\<close> and \<open>spans.max()\<close> of the numpy array made from a list of spans: the least
  and the greatest of all its coordinates. Both raise \<open>ValueError\<close> on an empty array.
\<close>

definition coords :: "(int \<times> int) list \<Rightarrow> int list" where
  "coords sp = concat (map (\<lambda>(a, b). [a, b]) sp)"

definition array_min :: "(int \<times> int) list \<Rightarrow> py_error + int" where
  "array_min sp = (case coords sp of [] \<Rightarrow> Inl ValueError | x # xs \<Rightarrow> Inr (fold min xs x))"

definition array_max :: "(int \<times> int) list \<Rightarrow> py_error + int" where
  "array_max sp = (case coords sp of [] \<Rightarrow> Inl ValueError | x # xs \<Rightarrow> Inr (fold max xs x))"

text \<open>The two lines of the scenario: both carry \<open>ID=exon1\<close>, with the spans (10, 20) and (30, 40).\<close>

definition exon1_first :: gff_line where
  "exon1_first =
     \<lparr>l_seqid = ''1'', l_source = ''ensembl'', l_type = ''exon'', l_start = 10, l_stop = 20,
      l_score = ''.'', l_strand = ''+'', l_phase = ''.'', l_attributes = ''ID=exon1''\<rparr>"

definition exon1_second :: gff_line where
  "exon1_second =
     \<lparr>l_seqid = ''1'', l_source = ''ensembl'', l_type = ''exon'', l_start = 30, l_stop = 40,
      l_score = ''.'', l_strand = ''+'', l_phase = ''.'', l_attributes = ''ID=exon1''\<rparr>"

text \<open>The record filed under a name in the result of the parser, if any.\<close>

definition parsed_record :: "py_error + parser_state \<Rightarrow> string \<Rightarrow> gff_record option" where
  "parsed_record res k = (case res of Inl e \<Rightarrow> None | Inr s \<Rightarrow> dict_get (fst s) k)"

text \<open>
  A third line with \<open>ID=exon1\<close> whose other columns all differ from those of
  \<open>exon1_first\<close>.
\<close>

definition exon1_other :: gff_line where
  "exon1_other =
     \<lparr>l_seqid = ''2'', l_source = ''havana'', l_type = ''CDS'', l_start = 30, l_stop = 40,
      l_score = ''7'', l_strand = ''-'', l_phase = ''0'',
      l_attributes = ''ID=exon1;Parent=transcript:T9''\<rparr>"

section \<open>The feature store (\<open>EnsemblGffDb\<close>)\<close>









section \<open>The homology store (\<open>HomologyDb\<close>)\<close>

text \<open>
  The three tables. \<open>relationship\<close> has the rows (id, homology_type), \<open>homology\<close> the rows
  (id, relationship_id) with an \<open>AUTOINCREMENT\<close> id, and \<open>member\<close> the rows
  (gene_id, homology_id), whose primary key is the pair: it is a set of pairs, and
  \<open>INSERT OR IGNORE\<close> is set insertion. \<open>relationship_types\<close> is the dictionary
  \<open>self._relationship_types\<close> kept beside the tables.
\<close>

record homology_db =
  relationship_rows :: "(nat \<times> rel_type) list"
  homology_rows :: "(nat \<times> nat) list"
  homology_seq :: nat
  member_rows :: "(gene_id \<times> nat) set"
  relationship_types :: "(rel_type, nat) dict"

definition empty_homology_db :: homology_db where
  "empty_homology_db =
     \<lparr>relationship_rows = [], homology_rows = [], homology_seq = 0, member_rows = {},
      relationship_types = []\<rparr>"

text \<open>
  \<open>_make_relationship_type_id\<close>. The id column is a plain \<open>INTEGER PRIMARY KEY\<close>: a new row
  gets the largest id present plus one.
\<close>

definition make_relationship_type_id :: "homology_db \<Rightarrow> rel_type \<Rightarrow> homology_db \<times> nat" where
  "make_relationship_type_id db t =
     (case dict_get (relationship_types db) t of
        Some i \<Rightarrow> (db, i)
      | None \<Rightarrow>
          (db\<lparr>relationship_rows :=
                 relationship_rows db @ [(Suc (fold max (map fst (relationship_rows db)) 0), t)],
               relationship_types :=
                 dict_set (relationship_types db) t
                   (Suc (fold max (map fst (relationship_rows db)) 0))\<rparr>,
           Suc (fold max (map fst (relationship_rows db)) 0)))"

text \<open>
  The view \<open>related_groups\<close> joins \<open>homology\<close> with \<open>relationship\<close> and with \<open>member\<close>. Its
  rows are listed here up to the member: one header (homology_type, relationship_id,
  homology_id) per pair of a homology row and its relationship row, in the order of the
  joins as written (homology rows in id order); the members of a header are the pairs of
  \<open>member\<close> with its homology id. SQL leaves the order of rows open; the first row of a
  query is taken in this order.
\<close>

definition group_headers :: "homology_db \<Rightarrow> (rel_type \<times> nat \<times> nat) list" where
  "group_headers db =
     concat (map (\<lambda>(hid, hr).
                    map (\<lambda>(rid, t). (t, rid, hid))
                        (filter (\<lambda>(rid, t). hr = rid) (relationship_rows db)))
                 (homology_rows db))"

text \<open>\<open>INSERT INTO homology(relationship_id) VALUES (?) RETURNING id\<close>.\<close>

definition new_homology :: "homology_db \<Rightarrow> nat \<Rightarrow> homology_db \<times> nat" where
  "new_homology db rid =
     (db\<lparr>homology_rows := homology_rows db @ [(homology_seq db + 1, rid)],
          homology_seq := homology_seq db + 1\<rparr>,
      homology_seq db + 1)"

text \<open>
  The query of \<open>_get_homology_group_id\<close>: the first row of the view with the relationship
  id and a gene id among the given ones (\<open>LIMIT 1\<close>).
\<close>

definition first_match :: "homology_db \<Rightarrow> nat \<Rightarrow> gene_id set \<Rightarrow> (rel_type \<times> nat \<times> nat) option" where
  "first_match db rid G =
     find (\<lambda>(t, r, hid). r = rid \<and> (\<exists>g\<in>G. (g, hid) \<in> member_rows db)) (group_headers db)"

definition get_homology_group_id ::
  "homology_db \<Rightarrow> nat \<Rightarrow> gene_id set option \<Rightarrow> homology_db \<times> nat" where
  "get_homology_group_id db rid ids =
     (case ids of
        None \<Rightarrow> new_homology db rid
      | Some G \<Rightarrow>
          (case first_match db rid G of
             None \<Rightarrow> new_homology db rid
           | Some (t, r, hid) \<Rightarrow> (db, hid)))"

text \<open>The body of the loop of \<open>add_records\<close> for a group with the right relationship.\<close>

definition insert_group :: "homology_db \<Rightarrow> nat \<Rightarrow> gene_id set \<Rightarrow> homology_db" where
  "insert_group db rid G =
     (case get_homology_group_id db rid (Some G) of
        (db1, hid) \<Rightarrow> db1\<lparr>member_rows := member_rows db1 \<union> (\<lambda>g. (g, hid)) ` G\<rparr>)"

text \<open>
  The loop: a group whose relationship differs raises \<open>ValueError\<close>; the groups before it
  have been inserted by then.
\<close>

fun add_groups ::
  "homology_db \<Rightarrow> nat \<Rightarrow> rel_type \<Rightarrow> homolog_group list \<Rightarrow> homology_db \<times> (py_error + unit)" where
  "add_groups db rid t [] = (db, Inr ())"
| "add_groups db rid t (g # gs) =
     (if relationship g \<noteq> t then (db, Inl ValueError)
      else add_groups (insert_group db rid (gene_ids g)) rid t gs)"

definition add_records ::
  "homology_db \<Rightarrow> homolog_group list \<Rightarrow> rel_type \<Rightarrow> homology_db \<times> (py_error + unit)" where
  "add_records db records t =
     (case make_relationship_type_id db t of (db0, rid) \<Rightarrow> add_groups db0 rid t records)"

text \<open>The gene ids filed under a homology id.\<close>

definition members_of :: "homology_db \<Rightarrow> nat \<Rightarrow> gene_id set" where
  "members_of db hid = fst ` Set.filter (\<lambda>p. snd p = hid) (member_rows db)"

text \<open>
  \<open>get_related_to\<close>: the homology id of the first row of the view with the type and the
  gene id, then every gene id of the view with that homology id (\<open>GROUP_CONCAT\<close>, split at
  the commas). No row: the empty tuple. The order of the concatenation is open, so the
  result is given as a set.
\<close>

definition get_related_to :: "homology_db \<Rightarrow> gene_id \<Rightarrow> rel_type \<Rightarrow> gene_id set" where
  "get_related_to db gene t =
     (case find (\<lambda>(t', r, hid). t' = t \<and> (gene, hid) \<in> member_rows db) (group_headers db) of
        None \<Rightarrow> {}
      | Some (t', r, hid) \<Rightarrow> members_of db hid)"


text \<open>The store after the group \<open>{g1, g2, g3}\<close> of type \<open>ortho\<close> has been inserted.\<close>

definition ortho_group :: homolog_group where
  "ortho_group = \<lparr>relationship = ''ortho'', gene_ids = {''g1'', ''g2'', ''g3''}\<rparr>"

definition db_ortho :: homology_db where
  "db_ortho = fst (add_records empty_homology_db [ortho_group] ''ortho'')"





text \<open>
  A store as the operations leave it: every cached relationship id has its row, and no
  member row has a homology id beyond the sequence counter of \<open>homology\<close>.
\<close>

definition db_ok :: "homology_db \<Rightarrow> bool" where
  "db_ok db =
     ((\<forall>t rid. dict_get (relationship_types db) t = Some rid
          \<longrightarrow> (rid, t) \<in> set (relationship_rows db))
      \<and> (\<forall>p\<in>member_rows db. snd p \<le> homology_seq db))"


section \<open>The relationship builder (\<open>make_gene_relationships\<close>)\<close>

text \<open>
  The first loop files the records by lower-cased biotype and then by name; a name may be
  \<open>None\<close>, so the inner keys are options.
\<close>

type_synonym related_dict = "(string, (string option, gff_record) dict) dict"

definition bucket_step :: "related_dict \<Rightarrow> gff_record \<Rightarrow> related_dict" where
  "bucket_step related r =
     (let b = (case dict_get related (lower (biotype r)) of None \<Rightarrow> [] | Some d \<Rightarrow> d)
      in dict_set related (lower (biotype r)) (dict_set b (name r) r))"

definition bucket_records :: "gff_record list \<Rightarrow> related_dict" where
  "bucket_records records = foldl bucket_step [] records"

text \<open>
  A Python set of records: \<open>__hash__\<close> and \<open>__eq__\<close> go by name, so adding a record whose
  name is present changes nothing. The model keeps the elements in the order they came.
\<close>

definition set_add :: "gff_record list \<Rightarrow> gff_record \<Rightarrow> gff_record list" where
  "set_add s r = (if name r \<in> set (map name s) then s else s @ [r])"

text \<open>
  The second loop builds \<open>genes\<close>, a dictionary from gene records (keyed by name) to sets.
  \<open>genes.get(gene.stableid, set())\<close> may return the set object of another entry, which is
  then updated in place and stored under this gene too; the sets therefore live in a store
  and the dictionary holds addresses. The lookup key is the string \<open>gene.stableid\<close>: it finds
  the entry whose key has that string as its name.
\<close>

record genes_state =
  sets :: "gff_record list list"
  genes :: "(string option, gff_record \<times> addr) dict"

text \<open>\<open>f"Ensembl_canonical;{cds_record.attrs}"\<close>; an f-string prints \<open>None\<close> as \<open>None\<close>.\<close>

definition mark_canonical :: "gff_record \<Rightarrow> gff_record" where
  "mark_canonical c =
     c\<lparr>attrs := Some (''Ensembl_canonical;'' @ (case attrs c of None \<Rightarrow> ''None'' | Some a \<Rightarrow> a))\<rparr>"

text \<open>One iteration over a CDS record; a missing bucket or key raises \<open>KeyError\<close>.\<close>

definition cds_step :: "related_dict \<Rightarrow> genes_state \<Rightarrow> gff_record \<Rightarrow> py_error + genes_state" where
  "cds_step related s cds_record =
     (case dict_get related ''mrna'' of
        None \<Rightarrow> Inl KeyError
      | Some mrnas \<Rightarrow>
          (case dict_get mrnas (parent_id cds_record) of
             None \<Rightarrow> Inl KeyError
           | Some mrna_record \<Rightarrow>
               (case dict_get related ''gene'' of
                  None \<Rightarrow> Inl KeyError
                | Some gene_bucket \<Rightarrow>
                    (case dict_get gene_bucket (parent_id mrna_record) of
                       None \<Rightarrow> Inl KeyError
                     | Some gene \<Rightarrow>
                         (let cds' = (if is_canonical mrna_record then mark_canonical cds_record
                                      else cds_record);
                              (st, a) = (case dict_get (genes s) (Some (stableid gene)) of
                                           Some (k, a) \<Rightarrow> (sets s, a)
                                         | None \<Rightarrow> (sets s @ [[]], length (sets s)));
                              st' = st[a := set_add (set_add (st ! a) cds') mrna_record]
                          in Inr \<lparr>sets = st', genes = dict_set (genes s) (name gene) (gene, a)\<rparr>)))))"

fun cds_loop :: "related_dict \<Rightarrow> genes_state \<Rightarrow> gff_record list \<Rightarrow> py_error + genes_state" where
  "cds_loop related s [] = Inr s"
| "cds_loop related s (c # cs) =
     (case cds_step related s c of Inl e \<Rightarrow> Inl e | Inr s' \<Rightarrow> cds_loop related s' cs)"

text \<open>
  \<open>make_gene_relationships\<close>: the returned mapping, as the list of its items, each gene
  record with the elements of its set. \<open>related["cds"]\<close> raises \<open>KeyError\<close> when the input
  has no CDS record.
\<close>

definition make_gene_relationships ::
  "gff_record list \<Rightarrow> py_error + (gff_record \<times> gff_record list) list" where
  "make_gene_relationships records =
     (let related = bucket_records records
      in case dict_get related ''cds'' of
           None \<Rightarrow> Inl KeyError
         | Some cds_bucket \<Rightarrow>
             (case cds_loop related \<lparr>sets = [], genes = []\<rparr> (dict_values cds_bucket) of
                Inl e \<Rightarrow> Inl e
              | Inr s \<Rightarrow> Inr (map (\<lambda>(k, gene, a). (gene, sets s ! a)) (genes s))))"

text \<open>The names in a result: each gene with the names of its descendants.\<close>

definition relationship_names ::
  "py_error + (gff_record \<times> gff_record list) list
     \<Rightarrow> (string option \<times> string option list) list option" where
  "relationship_names res =
     (case res of
        Inl e \<Rightarrow> None
      | Inr items \<Rightarrow> Some (map (\<lambda>(gene, ds). (name gene, map name ds)) items))"

text \<open>
  An annotation of one gene with two transcripts, each with one CDS, in the form of the
  Ensembl files (typed stable ids, parents given by \<open>Parent=\<close>).
\<close>

definition gene_g1_lines :: "gff_line list" where
  "gene_g1_lines =
     [\<lparr>l_seqid = ''1'', l_source = ''ensembl'', l_type = ''gene'', l_start = 1, l_stop = 100,
       l_score = ''.'', l_strand = ''+'', l_phase = ''.'', l_attributes = ''ID=gene:G1''\<rparr>,
      \<lparr>l_seqid = ''1'', l_source = ''ensembl'', l_type = ''mRNA'', l_start = 1, l_stop = 50,
       l_score = ''.'', l_strand = ''+'', l_phase = ''.'',
       l_attributes = ''ID=transcript:T1;Parent=gene:G1''\<rparr>,
      \<lparr>l_seqid = ''1'', l_source = ''ensembl'', l_type = ''mRNA'', l_start = 51, l_stop = 100,
       l_score = ''.'', l_strand = ''+'', l_phase = ''.'',
       l_attributes = ''ID=transcript:T2;Parent=gene:G1''\<rparr>,
      \<lparr>l_seqid = ''1'', l_source = ''ensembl'', l_type = ''CDS'', l_start = 5, l_stop = 45,
       l_score = ''.'', l_strand = ''+'', l_phase = ''0'',
       l_attributes = ''ID=CDS:P1;Parent=transcript:T1''\<rparr>,
      \<lparr>l_seqid = ''1'', l_source = ''ensembl'', l_type = ''CDS'', l_start = 55, l_stop = 95,
       l_score = ''.'', l_strand = ''+'', l_phase = ''0'',
       l_attributes = ''ID=CDS:P2;Parent=transcript:T2''\<rparr>]"

text \<open>The records of these lines, as \<open>make_annotation_db\<close> hands them on.\<close>

definition gene_g1_records :: "gff_record list" where
  "gene_g1_records =
     (case custom_gff_parser gene_g1_lines 0 of
        Inl e \<Rightarrow> []
      | Inr s \<Rightarrow> dict_values (fst s))"

section \<open>The merge engine (\<open>merge_grouped\<close>)\<close>

text \<open>
  A clustering is a dictionary from relationship type to a tuple of groups. \<open>merge_grouped\<close>
  iterates over Python sets of strings (the relationship types, the gene ids of a group,
  the ids unique to one side, the shared ids); Python leaves the order of such an iteration
  open, so the model takes it as the parameter \<open>iter\<close>, which lists the elements of a set.
  Only the order over the shared ids can change which groups result.
\<close>

type_synonym grouping = "(rel_type, homolog_group list) dict"

text \<open>\<open>homolog_group.__or__\<close>: the union of two groups of the same relationship.\<close>

definition group_or :: "homolog_group \<Rightarrow> homolog_group \<Rightarrow> py_error + homolog_group" where
  "group_or x y =
     (if relationship y \<noteq> relationship x then Inl ValueError
      else Inr \<lparr>relationship = relationship x, gene_ids = gene_ids x \<union> gene_ids y\<rparr>)"

text \<open>\<open>result.update({gene_id: group for gene_id in group.gene_ids})\<close>.\<close>

definition update_all ::
  "(string set \<Rightarrow> string list) \<Rightarrow> (gene_id, homolog_group) dict \<Rightarrow> homolog_group
    \<Rightarrow> (gene_id, homolog_group) dict" where
  "update_all iter d grp = foldl (\<lambda>d' g. dict_set d' g grp) d (iter (gene_ids grp))"

definition gene_id_to_group ::
  "(string set \<Rightarrow> string list) \<Rightarrow> homolog_group list \<Rightarrow> (gene_id, homolog_group) dict" where
  "gene_id_to_group iter series = foldl (update_all iter) [] series"

text \<open>
  \<open>_add_unique\<close>: every gene id of \<open>a\<close> that is no key of \<open>b\<close> is stored in \<open>combined\<close> with
  its group in \<open>a\<close>, as that group is.
\<close>

definition add_unique ::
  "(string set \<Rightarrow> string list) \<Rightarrow> (gene_id, homolog_group) dict \<Rightarrow> (gene_id, homolog_group) dict
    \<Rightarrow> (gene_id, homolog_group) dict \<Rightarrow> (gene_id, homolog_group) dict" where
  "add_unique iter a b combined =
     foldl (\<lambda>d g. case dict_get a g of None \<Rightarrow> d | Some v \<Rightarrow> dict_set d g v) combined
       (iter (set (dict_keys a) - set (dict_keys b)))"

text \<open>
  The loop over the shared ids, with the dictionary \<open>rel_type_group\<close> and the set \<open>skip\<close>.
  The shared ids are keys of both dictionaries.
\<close>

fun shared_loop ::
  "(string set \<Rightarrow> string list) \<Rightarrow> (gene_id, homolog_group) dict \<Rightarrow> (gene_id, homolog_group) dict
    \<Rightarrow> (gene_id, homolog_group) dict \<Rightarrow> gene_id set \<Rightarrow> gene_id list
    \<Rightarrow> py_error + (gene_id, homolog_group) dict" where
  "shared_loop iter grp1 grp2 d skip [] = Inr d"
| "shared_loop iter grp1 grp2 d skip (g # gs) =
     (if g \<in> skip then shared_loop iter grp1 grp2 d skip gs
      else (case (dict_get grp1 g, dict_get grp2 g) of
              (Some x, Some y) \<Rightarrow>
                (case group_or x y of
                   Inl e \<Rightarrow> Inl e
                 | Inr merged \<Rightarrow>
                     shared_loop iter grp1 grp2 (update_all iter d merged)
                       (skip \<union> gene_ids merged) gs)
            | _ \<Rightarrow> Inl KeyError))"

text \<open>
  The body for a relationship type that both inputs have. \<open>tuple(set(...))\<close> keeps one entry
  per group object; its order is open, and the model lists the groups in the order of
  their last occurrence among the values. Two values that are equal as records are the
  same object here: of two equal groups on one side the later takes every key of the
  earlier, a carried group that equals a union is overwritten by it, and two unions differ
  in the shared id that started the second.
\<close>

definition merge_rel_type ::
  "(string set \<Rightarrow> string list) \<Rightarrow> homolog_group list \<Rightarrow> homolog_group list
    \<Rightarrow> py_error + homolog_group list" where
  "merge_rel_type iter s1 s2 =
     (let grp1 = gene_id_to_group iter s1;
          grp2 = gene_id_to_group iter s2;
          d0 = add_unique iter grp2 grp1 (add_unique iter grp1 grp2 []);
          shared_ids = iter (set (dict_keys grp1) \<inter> set (dict_keys grp2))
      in case shared_loop iter grp1 grp2 d0 {} shared_ids of
           Inl e \<Rightarrow> Inl e
         | Inr d \<Rightarrow> Inr (remdups (dict_values d)))"

fun merge_types ::
  "(string set \<Rightarrow> string list) \<Rightarrow> grouping \<Rightarrow> grouping \<Rightarrow> grouping \<Rightarrow> rel_type list
    \<Rightarrow> py_error + grouping" where
  "merge_types iter group1 group2 joint [] = Inr joint"
| "merge_types iter group1 group2 joint (rt # rts) =
     (case (dict_get group1 rt, dict_get group2 rt) of
        (Some s1, Some s2) \<Rightarrow>
          (case merge_rel_type iter s1 s2 of
             Inl e \<Rightarrow> Inl e
           | Inr s \<Rightarrow> merge_types iter group1 group2 (dict_set joint rt s) rts)
      | (Some s1, None) \<Rightarrow> merge_types iter group1 group2 (dict_set joint rt s1) rts
      | (None, Some s2) \<Rightarrow> merge_types iter group1 group2 (dict_set joint rt s2) rts
      | (None, None) \<Rightarrow> merge_types iter group1 group2 joint rts)"

definition merge_grouped ::
  "(string set \<Rightarrow> string list) \<Rightarrow> grouping \<Rightarrow> grouping \<Rightarrow> py_error + grouping" where
  "merge_grouped iter group1 group2 =
     merge_types iter group1 group2 []
       (iter (set (dict_keys group1) \<union> set (dict_keys group2)))"

text \<open>Merging three clusterings, associated to the left and to the right.\<close>

definition merge_left ::
  "(string set \<Rightarrow> string list) \<Rightarrow> grouping \<Rightarrow> grouping \<Rightarrow> grouping \<Rightarrow> py_error + grouping" where
  "merge_left iter a b c =
     (case merge_grouped iter a b of Inl e \<Rightarrow> Inl e | Inr ab \<Rightarrow> merge_grouped iter ab c)"

definition merge_right ::
  "(string set \<Rightarrow> string list) \<Rightarrow> grouping \<Rightarrow> grouping \<Rightarrow> grouping \<Rightarrow> py_error + grouping" where
  "merge_right iter a b c =
     (case merge_grouped iter b c of Inl e \<Rightarrow> Inl e | Inr bc \<Rightarrow> merge_grouped iter a bc)"

text \<open>The member sets of the groups of a type in a result, the tuple taken as a set.\<close>

definition member_sets :: "py_error + grouping \<Rightarrow> rel_type \<Rightarrow> gene_id set set option" where
  "member_sets res rt =
     (case res of
        Inl e \<Rightarrow> None
      | Inr j \<Rightarrow> map_option (\<lambda>s. gene_ids ` set s) (dict_get j rt))"

text \<open>Two iteration orders: ascending and descending.\<close>

definition iter_up :: "string set \<Rightarrow> string list" where
  "iter_up S = sorted_list_of_set S"

definition iter_down :: "string set \<Rightarrow> string list" where
  "iter_down S = rev (sorted_list_of_set S)"

text \<open>Three partial clusterings of type \<open>ortho\<close>: \<open>{a, b}\<close>, \<open>{c, d}\<close> and the bridge \<open>{b, c}\<close>.\<close>

definition part_ab :: grouping where
  "part_ab = [(''ortho'', [\<lparr>relationship = ''ortho'', gene_ids = {''a'', ''b''}\<rparr>])]"

definition part_cd :: grouping where
  "part_cd = [(''ortho'', [\<lparr>relationship = ''ortho'', gene_ids = {''c'', ''d''}\<rparr>])]"

definition part_bc :: grouping where
  "part_bc = [(''ortho'', [\<lparr>relationship = ''ortho'', gene_ids = {''b'', ''c''}\<rparr>])]"

section \<open>Invariants and auxiliary notions\<close>

text \<open>Every address held by a dictionary of a reachable state points into the store.\<close>

definition addrs_valid :: "grouped_state \<Rightarrow> bool" where
  "addrs_valid s =
     (\<forall>rt d g a. (rt, d) \<in> set (grouped s) \<longrightarrow> (g, a) \<in> set d \<longrightarrow> a < length (store s))"

text \<open>Start and stop of a stored record are the least start and the greatest stop of its spans.\<close>

definition span_ok :: "gff_record \<Rightarrow> bool" where
  "span_ok r = (\<exists>sp. spans r = Some sp \<and> sp \<noteq> [] \<and> start r = Some (Min (fst ` set sp))
                  \<and> stop r = Some (Max (snd ` set sp)))"

definition minmax_ok :: "gff_record \<Rightarrow> bool" where
  "minmax_ok r = (\<exists>sp s0 e0. spans r = Some sp \<and> sp \<noteq> [] \<and> start r = Some s0 \<and> stop r = Some e0
                    \<and> array_min sp = Inr s0 \<and> array_max sp = Inr e0)"

text \<open>The fields other than spans, start and stop are those of \<open>r0\<close>.\<close>

definition same_but_spans :: "gff_record \<Rightarrow> gff_record \<Rightarrow> bool" where
  "same_but_spans r0 r = (\<exists>sp s0 e0. r = r0\<lparr>spans := Some sp, start := Some s0, stop := Some e0\<rparr>)"






section \<open>Verification\<close>

subsection \<open>Dictionaries\<close>

lemma dict_get_set: "dict_get (dict_set d k v) k' = (if k' = k then Some v else dict_get d k')"
  by (simp add: dict_get_def dict_set_def update_conv')

lemma set_dict_set: "set (dict_set d k v) \<subseteq> insert (k, v) (set d)"
  unfolding dict_set_def by (induction d) auto

subsection \<open>The clusterer\<close>

lemmas gr_defs = grouped_related_def grouped_loop_def grouped_step_def init_grouped_def rel_of_def
  pick_val_def add_genes_def reduce_groups_def dict_get_def dict_set_def dict_values_def new_group_def

lemma rel_of_valid: "addrs_valid s \<Longrightarrow> (g, a) \<in> set (rel_of s rt) \<Longrightarrow> a < length (store s)"
proof -
  assume inv: "addrs_valid s" and ga: "(g, a) \<in> set (rel_of s rt)"
  then obtain d where d: "map_of (grouped s) rt = Some d" and r: "rel_of s rt = d"
    by (cases "map_of (grouped s) rt") (auto simp: rel_of_def dict_get_def)
  from d have "(rt, d) \<in> set (grouped s)" by (rule map_of_SomeD)
  with inv ga r show ?thesis unfolding addrs_valid_def by blast
qed

lemma dict_get_valid:
  "addrs_valid s \<Longrightarrow> dict_get (rel_of s rt) g = Some a \<Longrightarrow> a < length (store s)"
  using rel_of_valid[of s g a rt] by (auto simp: dict_get_def dest: map_of_SomeD)

lemma pick_val_valid:
  assumes "addrs_valid s" "pick_val (store s) (rel_of s rt) rt g1 g2 = (st1, val)"
  shows "val < length st1 \<and> length (store s) \<le> length st1"
  using assms dict_get_valid[OF assms(1)]
  by (auto simp: pick_val_def split: option.splits)

lemma length_add_genes [simp]: "length (add_genes st a p) = length st"
  by (simp add: add_genes_def)

lemma addrs_valid_step: "addrs_valid s \<Longrightarrow> addrs_valid (grouped_step s row)"
proof -
  assume inv: "addrs_valid s"
  obtain rt g1 g2 where row: "row = (rt, g1, g2)" by (cases row) auto
  obtain st1 val where pv: "pick_val (store s) (rel_of s rt) rt g1 g2 = (st1, val)"
    by (cases "pick_val (store s) (rel_of s rt) rt g1 g2") auto
  from pick_val_valid[OF inv pv]
  have v: "val < length st1" and le: "length (store s) \<le> length st1"
    by auto
  let ?rel' = "dict_set (dict_set (rel_of s rt) g1 val) g2 val"
  let ?s' = "\<lparr>store = add_genes st1 val {g1, g2}, grouped = dict_set (grouped s) rt ?rel'\<rparr>"
  have s': "grouped_step s row = ?s'"
    by (simp add: grouped_step_def row pv)
  have rel': "a < length st1" if "(g, a) \<in> set ?rel'" for g a
  proof -
    from that
    have "(g, a) = (g2, val) \<or> (g, a) = (g1, val) \<or> (g, a) \<in> set (rel_of s rt)"
      using set_dict_set[of "dict_set (rel_of s rt) g1 val" g2 val]
        set_dict_set[of "rel_of s rt" g1 val]
      by auto
    then show ?thesis using v le rel_of_valid[OF inv, of g a rt] by auto
  qed
  show ?thesis
    unfolding addrs_valid_def s'
  proof (intro allI impI)
    fix rt' d g a
    assume d: "(rt', d) \<in> set (grouped ?s')" and ga: "(g, a) \<in> set d"
    from d have "(rt', d) = (rt, ?rel') \<or> (rt', d) \<in> set (grouped s)"
      using set_dict_set[of "grouped s" rt ?rel'] by auto
    then have "a < length st1"
    proof
      assume "(rt', d) = (rt, ?rel')"
      then show ?thesis using rel' ga by auto
    next
      assume "(rt', d) \<in> set (grouped s)"
      then show ?thesis using inv ga le unfolding addrs_valid_def by fastforce
    qed
    then show "a < length (store ?s')"
      by simp
  qed
qed

lemma addrs_valid_foldl: "addrs_valid s \<Longrightarrow> addrs_valid (foldl grouped_step s data)"
  by (induction data arbitrary: s) (auto simp: addrs_valid_step)

lemma addrs_valid_loop: "addrs_valid (grouped_loop data)"
  unfolding grouped_loop_def
  by (rule addrs_valid_foldl) (simp add: addrs_valid_def init_grouped_def)

lemma grouped_loop_snoc: "grouped_loop (data @ [row]) = grouped_step (grouped_loop data) row"
  by (simp add: grouped_loop_def)

text \<open>When \<open>val\<close> is an existing object: what one iteration does to it and to the dictionary.\<close>

lemma step_target:
  assumes inv: "addrs_valid s" and pv: "pick_val (store s) (rel_of s rt) rt g1 g2 = (store s, a)"
  shows "dict_get (rel_of (grouped_step s (rt, g1, g2)) rt) g1 = Some a
       \<and> dict_get (rel_of (grouped_step s (rt, g1, g2)) rt) g2 = Some a
       \<and> gene_ids (store (grouped_step s (rt, g1, g2)) ! a) = gene_ids (store s ! a) \<union> {g1, g2}
       \<and> length (store (grouped_step s (rt, g1, g2))) = length (store s)
       \<and> (\<forall>i. i \<noteq> a \<longrightarrow> store (grouped_step s (rt, g1, g2)) ! i = store s ! i)"
proof -
  from pick_val_valid[OF inv pv] have v: "a < length (store s)" by simp
  have s': "grouped_step s (rt, g1, g2) =
      \<lparr>store = add_genes (store s) a {g1, g2},
       grouped = dict_set (grouped s) rt (dict_set (dict_set (rel_of s rt) g1 a) g2 a)\<rparr>"
    by (simp add: grouped_step_def pv)
  have r: "rel_of (grouped_step s (rt, g1, g2)) rt = dict_set (dict_set (rel_of s rt) g1 a) g2 a"
    unfolding s' by (simp add: rel_of_def dict_get_set)
  show ?thesis unfolding r using v
    by (simp add: s' dict_get_set add_genes_def)
qed

text \<open>
  C1, at the bridging input: the edges \<open>(ortho, a, b)\<close>, \<open>(ortho, c, d)\<close>, \<open>(ortho, b, c)\<close>.
  The third edge finds \<open>b\<close> in the first group and adds \<open>c\<close> to it, while \<open>d\<close> still refers
  to the second group, which keeps \<open>c\<close>. The result for \<open>ortho\<close> is the two groups
  \<open>{a, b, c}\<close> and \<open>{c, d}\<close>: the gene id \<open>c\<close> belongs to both, so the groups of one
  relationship type are not pairwise disjoint.
\<close>

theorem grouped_related_bridging_overlap:
  "grouped_related [(''ortho'', ''a'', ''b''), (''ortho'', ''c'', ''d''), (''ortho'', ''b'', ''c'')]
     = [(''ortho'', [\<lparr>relationship = ''ortho'', gene_ids = {''a'', ''b'', ''c''}\<rparr>,
                    \<lparr>relationship = ''ortho'', gene_ids = {''c'', ''d''}\<rparr>])]
   \<and> ''c'' \<in> gene_ids \<lparr>relationship = ''ortho'', gene_ids = {''a'', ''b'', ''c''}\<rparr>
              \<inter> gene_ids \<lparr>relationship = ''ortho'', gene_ids = {''c'', ''d''}\<rparr>"
  by (simp add: gr_defs insert_commute)

text \<open>
  C6: the edges \<open>(ortho, g1, g2)\<close>, \<open>(ortho, g2, g3)\<close>, in that order, give exactly one group
  for \<open>ortho\<close>, with the members \<open>{g1, g2, g3}\<close>. And for every input processed so far and
  every next edge \<open>(rt, g1, g2)\<close>: when \<open>g1\<close> already maps to a group, or \<open>g1\<close> does not and
  \<open>g2\<close> does, that group (the one of \<open>g1\<close> when both map to groups, also to different ones)
  is the target: both gene ids map to it afterwards, its members grow by \<open>{g1, g2}\<close>, no
  object is created and no other object changes.
\<close>

theorem grouped_related_union_target:
  "grouped_related [(''ortho'', ''g1'', ''g2''), (''ortho'', ''g2'', ''g3'')]
     = [(''ortho'', [\<lparr>relationship = ''ortho'', gene_ids = {''g1'', ''g2'', ''g3''}\<rparr>])]
   \<and> (\<forall>data rt g1 g2 a.
        dict_get (rel_of (grouped_loop data) rt) g1 = Some a
        \<or> (dict_get (rel_of (grouped_loop data) rt) g1 = None
            \<and> dict_get (rel_of (grouped_loop data) rt) g2 = Some a)
        \<longrightarrow> dict_get (rel_of (grouped_loop (data @ [(rt, g1, g2)])) rt) g1 = Some a
          \<and> dict_get (rel_of (grouped_loop (data @ [(rt, g1, g2)])) rt) g2 = Some a
          \<and> gene_ids (store (grouped_loop (data @ [(rt, g1, g2)])) ! a)
              = gene_ids (store (grouped_loop data) ! a) \<union> {g1, g2}
          \<and> length (store (grouped_loop (data @ [(rt, g1, g2)])))
              = length (store (grouped_loop data))
          \<and> (\<forall>i. i \<noteq> a \<longrightarrow>
                store (grouped_loop (data @ [(rt, g1, g2)])) ! i = store (grouped_loop data) ! i))"
proof (intro conjI allI impI)
  show "grouped_related [(''ortho'', ''g1'', ''g2''), (''ortho'', ''g2'', ''g3'')]
     = [(''ortho'', [\<lparr>relationship = ''ortho'', gene_ids = {''g1'', ''g2'', ''g3''}\<rparr>])]"
    by (simp add: gr_defs insert_commute)
next
  fix data rt g1 g2 a
  assume h: "dict_get (rel_of (grouped_loop data) rt) g1 = Some a
        \<or> (dict_get (rel_of (grouped_loop data) rt) g1 = None
            \<and> dict_get (rel_of (grouped_loop data) rt) g2 = Some a)"
  let ?s = "grouped_loop data"
  from h have pv: "pick_val (store ?s) (rel_of ?s rt) rt g1 g2 = (store ?s, a)"
    by (auto simp: pick_val_def)
  note st = step_target[OF addrs_valid_loop pv, folded grouped_loop_snoc]
  show "dict_get (rel_of (grouped_loop (data @ [(rt, g1, g2)])) rt) g1 = Some a"
    using st by blast
  show "dict_get (rel_of (grouped_loop (data @ [(rt, g1, g2)])) rt) g2 = Some a"
    using st by blast
  show "gene_ids (store (grouped_loop (data @ [(rt, g1, g2)])) ! a)
              = gene_ids (store (grouped_loop data) ! a) \<union> {g1, g2}"
    using st by blast
  show "length (store (grouped_loop (data @ [(rt, g1, g2)]))) = length (store (grouped_loop data))"
    using st by blast
  fix i assume "i \<noteq> a"
  then show "store (grouped_loop (data @ [(rt, g1, g2)])) ! i = store (grouped_loop data) ! i"
    using st by blast
qed

text \<open>
  The rule at an edge whose two gene ids map to different existing groups: after
  \<open>(ortho, a, b)\<close> and \<open>(ortho, c, d)\<close> the id \<open>b\<close> is in object 0 and \<open>c\<close> in object 1; the
  edge \<open>(ortho, b, c)\<close> takes object 0, the group of its first gene id.
\<close>

theorem grouped_related_union_target_witness:
  "dict_get (rel_of (grouped_loop [(''ortho'', ''a'', ''b''), (''ortho'', ''c'', ''d'')]) ''ortho'') ''b''
     = Some 0
   \<and> dict_get (rel_of (grouped_loop [(''ortho'', ''a'', ''b''), (''ortho'', ''c'', ''d'')]) ''ortho'') ''c''
     = Some 1
   \<and> dict_get (rel_of (grouped_loop ([(''ortho'', ''a'', ''b''), (''ortho'', ''c'', ''d'')]
        @ [(''ortho'', ''b'', ''c'')])) ''ortho'') ''c'' = Some 0
   \<and> gene_ids (store (grouped_loop ([(''ortho'', ''a'', ''b''), (''ortho'', ''c'', ''d'')]
        @ [(''ortho'', ''b'', ''c'')])) ! 0) = {''a'', ''b'', ''c''}"
proof -
  have h: "dict_get (rel_of (grouped_loop [(''ortho'', ''a'', ''b''), (''ortho'', ''c'', ''d'')]) ''ortho'') ''b''
      = Some 0"
    by (simp add: gr_defs)
  have c: "dict_get (rel_of (grouped_loop [(''ortho'', ''a'', ''b''), (''ortho'', ''c'', ''d'')]) ''ortho'') ''c''
      = Some 1"
    by (simp add: gr_defs)
  have g: "gene_ids (store (grouped_loop [(''ortho'', ''a'', ''b''), (''ortho'', ''c'', ''d'')]) ! 0)
      = {''a'', ''b''}"
    by (simp add: gr_defs insert_commute)
  from grouped_related_union_target h
  have "dict_get (rel_of (grouped_loop ([(''ortho'', ''a'', ''b''), (''ortho'', ''c'', ''d'')]
          @ [(''ortho'', ''b'', ''c'')])) ''ortho'') ''c'' = Some 0
     \<and> gene_ids (store (grouped_loop ([(''ortho'', ''a'', ''b''), (''ortho'', ''c'', ''d'')]
          @ [(''ortho'', ''b'', ''c'')])) ! 0)
        = gene_ids (store (grouped_loop [(''ortho'', ''a'', ''b''), (''ortho'', ''c'', ''d'')]) ! 0)
          \<union> {''b'', ''c''}"
    by blast
  with h c g show ?thesis by (simp add: insert_commute)
qed

subsection \<open>The normalizer\<close>

lemma ufa_fields:
  "update_from_attrs r = Inr r' \<Longrightarrow>
     start r' = start r \<and> stop r' = stop r \<and> spans r' = spans r \<and> seqid r' = seqid r
     \<and> source r' = source r \<and> score r' = score r \<and> strand r' = strand r \<and> phase r' = phase r
     \<and> comments r' = comments r \<and> attrs r' = attrs r \<and> feature_id r' = feature_id r"
  by (auto simp: update_from_attrs_def Let_def split: option.splits if_splits)

lemma name_record_fields:
  "name_record r n = (r2, n') \<Longrightarrow>
     start r2 = start r \<and> stop r2 = stop r \<and> spans r2 = spans r \<and> name_or_empty r2 \<noteq> []
     \<and> (n' = n \<or> n' = n + 1)"
  by (auto simp: name_record_def name_or_empty_def split: if_splits)

lemma line_record_total: "\<exists>r2 n'. line_record l n = Some (r2, n')"
  by (cases "name_record (projr (update_from_attrs (make_record l))) n")
     (simp add: line_record_def update_from_attrs_def make_record_def Let_def)

lemma line_record_fields:
  assumes "line_record l n = Some (r2, n')"
  shows "start r2 = Some (l_start l) \<and> stop r2 = Some (l_stop l) \<and> spans r2 = None
     \<and> name_or_empty r2 \<noteq> []"
proof -
  from assms obtain r1 where u: "update_from_attrs (make_record l) = Inr r1"
    and nr: "name_record r1 n = (r2, n')"
    by (auto simp: line_record_def split: sum.splits)
  from ufa_fields[OF u] name_record_fields[OF nr] show ?thesis
    by (simp add: make_record_def)
qed

lemma step_new:
  assumes lr: "line_record l n = Some (r2, n')"
    and new: "dict_get reduced (name_or_empty r2) = None"
  shows "parser_step (reduced, n) (make_record l)
     = Inr (dict_set reduced (name_or_empty r2) (r2\<lparr>spans := Some [(l_start l, l_stop l)]\<rparr>), n')"
proof -
  from lr obtain r1 where u: "update_from_attrs (make_record l) = Inr r1"
    and nr: "name_record r1 n = (r2, n')"
    by (auto simp: line_record_def split: sum.splits)
  from line_record_fields[OF lr]
  have f: "start r2 = Some (l_start l)" "stop r2 = Some (l_stop l)" "spans r2 = None" by auto
  have eq: "r2\<lparr>spans := Some [(l_start l, l_stop l)], start := Some (l_start l), stop := Some (l_stop l)\<rparr>
      = r2\<lparr>spans := Some [(l_start l, l_stop l)]\<rparr>"
    using f by (cases r2) simp
  show ?thesis
    using f by (simp add: parser_step_def u nr new merge_span_def eq)
qed

lemma step_known:
  assumes lr: "line_record l n = Some (r2, n')"
    and old: "dict_get reduced (name_or_empty r2) = Some x"
    and x: "spans x = Some sp" "start x = Some s0" "stop x = Some e0"
  shows "parser_step (reduced, n) (make_record l)
     = Inr (dict_set reduced (name_or_empty r2)
             (x\<lparr>spans := Some (sp @ [(l_start l, l_stop l)]), start := Some (min s0 (l_start l)),
                stop := Some (max e0 (l_stop l))\<rparr>), n')"
proof -
  from lr obtain r1 where u: "update_from_attrs (make_record l) = Inr r1"
    and nr: "name_record r1 n = (r2, n')"
    by (auto simp: line_record_def split: sum.splits)
  from line_record_fields[OF lr]
  have f: "start r2 = Some (l_start l)" "stop r2 = Some (l_stop l)" "spans r2 = None" by auto
  show ?thesis
    using f x by (simp add: parser_step_def u nr old merge_span_def)
qed

lemma parser_loop_snoc:
  "parser_loop s (rs @ [r]) = (case parser_loop s rs of Inl e \<Rightarrow> Inl e | Inr s' \<Rightarrow> parser_step s' r)"
  by (induction rs arbitrary: s) (auto split: sum.splits)

lemma custom_gff_parser_snoc:
  "custom_gff_parser (ls @ [l]) n =
     (case custom_gff_parser ls n of Inl e \<Rightarrow> Inl e | Inr s' \<Rightarrow> parser_step s' (make_record l))"
  by (simp add: custom_gff_parser_def parser_loop_snoc)

lemma parser_loop_append:
  "parser_loop s (rs @ rs') = (case parser_loop s rs of Inl e \<Rightarrow> Inl e | Inr s' \<Rightarrow> parser_loop s' rs')"
  by (induction rs arbitrary: s) (auto split: sum.splits)

text \<open>A property of every stored record that each iteration keeps is kept by the loop.\<close>

lemma parser_step_invariant:
  assumes new: "\<And>r2. start r2 = Some (l_start l) \<Longrightarrow> stop r2 = Some (l_stop l)
                  \<Longrightarrow> P (r2\<lparr>spans := Some [(l_start l, l_stop l)]\<rparr>)"
    and known: "\<And>x. P x \<Longrightarrow> \<exists>sp s0 e0. spans x = Some sp \<and> start x = Some s0 \<and> stop x = Some e0
                  \<and> P (x\<lparr>spans := Some (sp @ [(l_start l, l_stop l)]),
                         start := Some (min s0 (l_start l)), stop := Some (max e0 (l_stop l))\<rparr>)"
    and inv: "\<forall>k r. dict_get reduced k = Some r \<longrightarrow> P r"
  shows "\<exists>reduced' n'. parser_step (reduced, n) (make_record l) = Inr (reduced', n')
           \<and> (\<forall>k r. dict_get reduced' k = Some r \<longrightarrow> P r)"
proof -
  obtain r2 n' where lr: "line_record l n = Some (r2, n')"
    using line_record_total by blast
  note f = line_record_fields[OF lr]
  show ?thesis
  proof (cases "dict_get reduced (name_or_empty r2)")
    case None
    from new[of r2] f have "P (r2\<lparr>spans := Some [(l_start l, l_stop l)]\<rparr>)" by simp
    with inv show ?thesis
      unfolding step_new[OF lr None] by (auto simp: dict_get_set)
  next
    case (Some x)
    with inv have "P x" by blast
    from known[OF this] obtain sp s0 e0 where
      x: "spans x = Some sp" "start x = Some s0" "stop x = Some e0"
      and p: "P (x\<lparr>spans := Some (sp @ [(l_start l, l_stop l)]),
                         start := Some (min s0 (l_start l)), stop := Some (max e0 (l_stop l))\<rparr>)"
      by blast
    from inv p show ?thesis
      unfolding step_known[OF lr Some x] by (auto simp: dict_get_set)
  qed
qed

lemma parser_loop_invariant:
  assumes new: "\<And>l r2. Q l \<Longrightarrow> start r2 = Some (l_start l) \<Longrightarrow> stop r2 = Some (l_stop l)
                  \<Longrightarrow> P (r2\<lparr>spans := Some [(l_start l, l_stop l)]\<rparr>)"
    and known: "\<And>l x. Q l \<Longrightarrow> P x \<Longrightarrow> \<exists>sp s0 e0. spans x = Some sp \<and> start x = Some s0 \<and> stop x = Some e0
                  \<and> P (x\<lparr>spans := Some (sp @ [(l_start l, l_stop l)]),
                         start := Some (min s0 (l_start l)), stop := Some (max e0 (l_stop l))\<rparr>)"
  shows "list_all Q ls \<Longrightarrow> \<forall>k r. dict_get reduced k = Some r \<longrightarrow> P r \<Longrightarrow>
     \<exists>reduced' n'. parser_loop (reduced, n) (map make_record ls) = Inr (reduced', n')
           \<and> (\<forall>k r. dict_get reduced' k = Some r \<longrightarrow> P r)"
proof (induction ls arbitrary: reduced n)
  case Nil
  then show ?case by simp
next
  case (Cons l ls)
  from Cons.prems have q: "Q l" and qs: "list_all Q ls" by auto
  from parser_step_invariant[of l P reduced n, OF new[OF q] known[OF q] Cons.prems(2)]
  obtain reduced1 n1 where st: "parser_step (reduced, n) (make_record l) = Inr (reduced1, n1)"
    and inv1: "\<forall>k r. dict_get reduced1 k = Some r \<longrightarrow> P r"
    by blast
  from Cons.IH[OF qs inv1, of n1] show ?case by (simp add: st)
qed

lemma span_ok_known:
  assumes "span_ok x"
  shows "\<exists>sp s0 e0. spans x = Some sp \<and> start x = Some s0 \<and> stop x = Some e0
        \<and> span_ok (x\<lparr>spans := Some (sp @ [(s, e)]), start := Some (min s0 s), stop := Some (max e0 e)\<rparr>)"
proof -
  from assms obtain sp where x: "spans x = Some sp" "sp \<noteq> []" "start x = Some (Min (fst ` set sp))"
    "stop x = Some (Max (snd ` set sp))" unfolding span_ok_def by blast
  have "Min (fst ` set (sp @ [(s, e)])) = min (Min (fst ` set sp)) s"
    using x(2) by (simp add: min.commute)
  moreover have "Max (snd ` set (sp @ [(s, e)])) = max (Max (snd ` set sp)) e"
    using x(2) by (simp add: max.commute)
  ultimately show ?thesis using x by (simp add: span_ok_def)
qed

lemma custom_gff_parser_span_ok:
  "\<exists>reduced n'. custom_gff_parser ls n = Inr (reduced, n')
     \<and> (\<forall>k r. dict_get reduced k = Some r \<longrightarrow> span_ok r)"
  unfolding custom_gff_parser_def
proof (rule parser_loop_invariant[where Q = "\<lambda>l. True"])
  fix l :: gff_line and r2 :: gff_record
  assume "start r2 = Some (l_start l)" "stop r2 = Some (l_stop l)"
  then show "span_ok (r2\<lparr>spans := Some [(l_start l, l_stop l)]\<rparr>)"
    by (simp add: span_ok_def)
next
  fix l :: gff_line and x :: gff_record
  assume "span_ok x"
  then show "\<exists>sp s0 e0. spans x = Some sp \<and> start x = Some s0 \<and> stop x = Some e0
        \<and> span_ok (x\<lparr>spans := Some (sp @ [(l_start l, l_stop l)]), start := Some (min s0 (l_start l)),
                      stop := Some (max e0 (l_stop l))\<rparr>)"
    by (rule span_ok_known)
next
  show "list_all (\<lambda>l. True) ls" by (simp add: list_all_iff)
  show "\<forall>k r. dict_get [] k = Some r \<longrightarrow> span_ok r" by (simp add: dict_get_def)
qed

lemma coords_snoc: "coords (sp @ [(s, e)]) = coords sp @ [s, e]"
  by (simp add: coords_def)

lemma array_min_Min: "coords sp \<noteq> [] \<Longrightarrow> array_min sp = Inr (Min (set (coords sp)))"
  by (cases "coords sp") (simp_all add: array_min_def Min.set_eq_fold[symmetric])

lemma array_max_Max: "coords sp \<noteq> [] \<Longrightarrow> array_max sp = Inr (Max (set (coords sp)))"
  by (cases "coords sp") (simp_all add: array_max_def Max.set_eq_fold[symmetric])

lemma array_min_single: "s \<le> e \<Longrightarrow> array_min [(s, e)] = Inr s"
  by (simp add: array_min_def coords_def)

lemma array_max_single: "s \<le> e \<Longrightarrow> array_max [(s, e)] = Inr e"
  by (simp add: array_max_def coords_def)

lemma array_min_nonempty: "array_min sp = Inr m \<Longrightarrow> coords sp \<noteq> []"
  by (auto simp: array_min_def)

lemma array_max_nonempty: "array_max sp = Inr m \<Longrightarrow> coords sp \<noteq> []"
  by (auto simp: array_max_def)

lemma array_min_snoc:
  assumes "array_min sp = Inr m" "s \<le> e"
  shows "array_min (sp @ [(s, e)]) = Inr (min m s)"
proof -
  from assms(1) have ne: "coords sp \<noteq> []" by (rule array_min_nonempty)
  with assms(1) have m: "m = Min (set (coords sp))" by (simp add: array_min_Min)
  have "array_min (sp @ [(s, e)]) = Inr (Min (set (coords sp) \<union> {s, e}))"
    using ne by (simp add: array_min_Min coords_snoc Un_commute insert_commute)
  also have "Min (set (coords sp) \<union> {s, e}) = min (Min (set (coords sp))) (Min {s, e})"
    using ne by (intro Min_Un) auto
  also have "Min {s, e} = s" using assms(2) by simp
  finally show ?thesis by (simp add: m)
qed

lemma array_max_snoc:
  assumes "array_max sp = Inr m" "s \<le> e"
  shows "array_max (sp @ [(s, e)]) = Inr (max m e)"
proof -
  from assms(1) have ne: "coords sp \<noteq> []" by (rule array_max_nonempty)
  with assms(1) have m: "m = Max (set (coords sp))" by (simp add: array_max_Max)
  have "array_max (sp @ [(s, e)]) = Inr (Max (set (coords sp) \<union> {s, e}))"
    using ne by (simp add: array_max_Max coords_snoc Un_commute insert_commute)
  also have "Max (set (coords sp) \<union> {s, e}) = max (Max (set (coords sp))) (Max {s, e})"
    using ne by (intro Max_Un) auto
  also have "Max {s, e} = e" using assms(2) by simp
  finally show ?thesis by (simp add: m)
qed

lemma custom_gff_parser_minmax_ok:
  assumes "list_all (\<lambda>l. l_start l \<le> l_stop l) ls"
  shows "\<exists>reduced n'. custom_gff_parser ls n = Inr (reduced, n')
     \<and> (\<forall>k r. dict_get reduced k = Some r \<longrightarrow> minmax_ok r)"
  unfolding custom_gff_parser_def
proof (rule parser_loop_invariant[where Q = "\<lambda>l. l_start l \<le> l_stop l"])
  fix l :: gff_line and r2 :: gff_record
  assume "l_start l \<le> l_stop l" "start r2 = Some (l_start l)" "stop r2 = Some (l_stop l)"
  then show "minmax_ok (r2\<lparr>spans := Some [(l_start l, l_stop l)]\<rparr>)"
    by (simp add: minmax_ok_def array_min_single array_max_single)
next
  fix l :: gff_line and x :: gff_record
  assume le: "l_start l \<le> l_stop l" and "minmax_ok x"
  then obtain sp s0 e0 where x: "spans x = Some sp" "start x = Some s0" "stop x = Some e0"
    "array_min sp = Inr s0" "array_max sp = Inr e0"
    unfolding minmax_ok_def by blast
  from array_min_snoc[OF x(4) le] array_max_snoc[OF x(5) le] x
  show "\<exists>sp s0 e0. spans x = Some sp \<and> start x = Some s0 \<and> stop x = Some e0
        \<and> minmax_ok (x\<lparr>spans := Some (sp @ [(l_start l, l_stop l)]), start := Some (min s0 (l_start l)),
                      stop := Some (max e0 (l_stop l))\<rparr>)"
    by (simp add: minmax_ok_def)
next
  show "list_all (\<lambda>l. l_start l \<le> l_stop l) ls" by (rule assms)
  show "\<forall>k r. dict_get [] k = Some r \<longrightarrow> minmax_ok r" by (simp add: dict_get_def)
qed

lemma exon1_parse:
  "custom_gff_parser [exon1_first, exon1_second] 0
     = Inr ([(''exon1'',
              \<lparr>seqid = ''1'', source = ''ensembl'', biotype = ''exon'', name = Some ''exon1'',
               parent_id = None, start = Some 10, stop = Some 40,
               spans = Some [(10, 20), (30, 40)], score = ''.'', strand = ''+'', phase = ''.'',
               comments = None, attrs = Some ''ID=exon1'', feature_id = None\<rparr>)], 0)"
  by code_simp

text \<open>
  C5: for every input whose lines all have start \<open>\<le>\<close> stop, the parser returns a mapping,
  and every record in it has a non-empty span list, its start is the least coordinate of
  its spans and its stop the greatest (\<open>array_min\<close> and \<open>array_max\<close> are the \<open>min()\<close> and
  \<open>max()\<close> of the span array). The two lines that share \<open>ID=exon1\<close>, with the spans
  (10, 20) and (30, 40), give one record with the spans [(10, 20), (30, 40)], start 10 and
  stop 40.
\<close>

theorem custom_gff_parser_start_stop:
  "(\<forall>ls n. list_all (\<lambda>l. l_start l \<le> l_stop l) ls \<longrightarrow>
      (\<exists>reduced n'. custom_gff_parser ls n = Inr (reduced, n')
         \<and> (\<forall>k r. dict_get reduced k = Some r \<longrightarrow>
               (\<exists>sp s0 e0. spans r = Some sp \<and> sp \<noteq> [] \<and> start r = Some s0 \<and> stop r = Some e0
                  \<and> array_min sp = Inr s0 \<and> array_max sp = Inr e0))))
   \<and> custom_gff_parser [exon1_first, exon1_second] 0
     = Inr ([(''exon1'',
              \<lparr>seqid = ''1'', source = ''ensembl'', biotype = ''exon'', name = Some ''exon1'',
               parent_id = None, start = Some 10, stop = Some 40,
               spans = Some [(10, 20), (30, 40)], score = ''.'', strand = ''+'', phase = ''.'',
               comments = None, attrs = Some ''ID=exon1'', feature_id = None\<rparr>)], 0)"
  using custom_gff_parser_minmax_ok exon1_parse unfolding minmax_ok_def by blast

theorem custom_gff_parser_start_stop_witness:
  "l_start exon1_first \<le> l_stop exon1_first \<and> l_start exon1_second \<le> l_stop exon1_second
   \<and> array_min [(10, 20), (30, 40)] = Inr 10 \<and> array_max [(10, 20), (30, 40)] = Inr 40"
proof -
  have le: "list_all (\<lambda>l. l_start l \<le> l_stop l) [exon1_first, exon1_second]"
    by (simp add: exon1_first_def exon1_second_def)
  from custom_gff_parser_start_stop le
  obtain reduced n' where p: "custom_gff_parser [exon1_first, exon1_second] 0 = Inr (reduced, n')"
    and all: "\<forall>k r. dict_get reduced k = Some r \<longrightarrow>
               (\<exists>sp s0 e0. spans r = Some sp \<and> sp \<noteq> [] \<and> start r = Some s0 \<and> stop r = Some e0
                  \<and> array_min sp = Inr s0 \<and> array_max sp = Inr e0)"
    by blast
  from p have "dict_get reduced ''exon1'' =
      Some \<lparr>seqid = ''1'', source = ''ensembl'', biotype = ''exon'', name = Some ''exon1'',
               parent_id = None, start = Some 10, stop = Some 40,
               spans = Some [(10, 20), (30, 40)], score = ''.'', strand = ''+'', phase = ''.'',
               comments = None, attrs = Some ''ID=exon1'', feature_id = None\<rparr>"
    by (auto simp: exon1_parse dict_get_def)
  with all have "array_min [(10, 20), (30, 40)] = Inr 10 \<and> array_max [(10, 20), (30, 40)] = Inr 40"
    by fastforce
  then show ?thesis by (simp add: exon1_first_def exon1_second_def)
qed

lemma dict_keys_set_known: "dict_get d k = Some x \<Longrightarrow> dict_keys (dict_set d k v) = dict_keys d"
proof -
  assume "dict_get d k = Some x"
  then have "(k, x) \<in> set d" unfolding dict_get_def by (rule map_of_SomeD)
  then have "k \<in> set (map fst d)" by force
  then show ?thesis by (simp add: dict_keys_def dict_set_def update_keys)
qed

lemma same_but_spans_self: "span_ok x \<Longrightarrow> same_but_spans x x"
  unfolding span_ok_def same_but_spans_def by (cases x) auto

lemma same_but_spans_upd:
  "same_but_spans r0 x \<Longrightarrow> same_but_spans r0 (x\<lparr>spans := Some sp, start := Some s0, stop := Some e0\<rparr>)"
  unfolding same_but_spans_def by (elim exE) (simp, blast)

lemma step_keeps_identity:
  assumes st: "parser_step (reduced, n) (make_record l) = Inr (reduced', n')"
    and x: "dict_get reduced k = Some x" "same_but_spans r0 x"
    and ok: "\<forall>k r. dict_get reduced k = Some r \<longrightarrow> span_ok r"
  shows "\<exists>x'. dict_get reduced' k = Some x' \<and> same_but_spans r0 x'"
proof -
  obtain r2 n2 where lr: "line_record l n = Some (r2, n2)"
    using line_record_total by blast
  show ?thesis
  proof (cases "dict_get reduced (name_or_empty r2)")
    case None
    with x(1) have "name_or_empty r2 \<noteq> k" by auto
    with st x show ?thesis
      unfolding step_new[OF lr None] by (auto simp: dict_get_set)
  next
    case (Some y)
    with ok have "span_ok y" by blast
    then obtain sp s0 e0 where y: "spans y = Some sp" "start y = Some s0" "stop y = Some e0"
      unfolding span_ok_def by blast
    show ?thesis
    proof (cases "name_or_empty r2 = k")
      case True
      with Some x have "y = x" by simp
      with st x True show ?thesis
        unfolding step_known[OF lr Some y] by (auto simp: dict_get_set same_but_spans_upd)
    next
      case False
      with st x show ?thesis
        unfolding step_known[OF lr Some y] by (auto simp: dict_get_set)
    qed
  qed
qed

lemma step_span_ok:
  assumes ok: "\<forall>k r. dict_get reduced k = Some r \<longrightarrow> span_ok r"
  shows "\<exists>reduced' n'. parser_step (reduced, n) (make_record l) = Inr (reduced', n')
           \<and> (\<forall>k r. dict_get reduced' k = Some r \<longrightarrow> span_ok r)"
proof (rule parser_step_invariant[OF _ _ ok])
  fix r2 :: gff_record
  assume "start r2 = Some (l_start l)" "stop r2 = Some (l_stop l)"
  then show "span_ok (r2\<lparr>spans := Some [(l_start l, l_stop l)]\<rparr>)"
    by (simp add: span_ok_def)
next
  fix x :: gff_record
  assume "span_ok x"
  then show "\<exists>sp s0 e0. spans x = Some sp \<and> start x = Some s0 \<and> stop x = Some e0
        \<and> span_ok (x\<lparr>spans := Some (sp @ [(l_start l, l_stop l)]), start := Some (min s0 (l_start l)),
                      stop := Some (max e0 (l_stop l))\<rparr>)"
    by (rule span_ok_known)
qed

lemma loop_keeps_identity:
  "parser_loop (reduced, n) (map make_record ls) = Inr (reduced', n')
   \<Longrightarrow> dict_get reduced k = Some x \<Longrightarrow> same_but_spans r0 x
   \<Longrightarrow> \<forall>k r. dict_get reduced k = Some r \<longrightarrow> span_ok r
   \<Longrightarrow> \<exists>x'. dict_get reduced' k = Some x' \<and> same_but_spans r0 x'"
proof (induction ls arbitrary: reduced n x)
  case Nil
  then show ?case by auto
next
  case (Cons l ls)
  from step_span_ok[OF Cons.prems(4), of n l]
  obtain red1 n1 where st: "parser_step (reduced, n) (make_record l) = Inr (red1, n1)"
    and ok1: "\<forall>k r. dict_get red1 k = Some r \<longrightarrow> span_ok r" by blast
  from step_keeps_identity[OF st Cons.prems(2,3,4)]
  obtain x1 where x1: "dict_get red1 k = Some x1" "same_but_spans r0 x1" by blast
  from Cons.prems(1) have "parser_loop (red1, n1) (map make_record ls) = Inr (reduced', n')"
    by (simp add: st)
  from Cons.IH[OF this x1 ok1] show ?case .
qed

lemma custom_gff_parser_append:
  "custom_gff_parser (ls @ ls') n =
     (case custom_gff_parser ls n of Inl e \<Rightarrow> Inl e
      | Inr s' \<Rightarrow> parser_loop s' (map make_record ls'))"
  by (simp add: custom_gff_parser_def parser_loop_append)

lemma custom_gff_parser_ok:
  "custom_gff_parser ls n = Inr (reduced, n') \<Longrightarrow> dict_get reduced k = Some r \<Longrightarrow> span_ok r"
  using custom_gff_parser_span_ok[of ls n] by auto

text \<open>
  C10: the normalizer identifies records by name alone. Let \<open>l0\<close> be the first line that
  yields an identifier (it is not yet a key after the lines \<open>pre\<close>) and \<open>r0\<close> the record
  built from it, and let a later line \<open>l1\<close>, after any lines \<open>mid\<close>, yield the same
  identifier. Then the record filed under the identifier before \<open>l1\<close> is \<open>r0\<close> up to spans,
  start and stop, and after \<open>l1\<close> it is still \<open>r0\<close> with the span of \<open>l1\<close> appended and start
  and stop widened: no field of the record \<open>r1\<close> built from \<open>l1\<close> other than its start and
  stop enters the result, whatever its values. No key is added.
\<close>

theorem custom_gff_parser_merges_by_name:
  assumes pre: "custom_gff_parser pre n = Inr (red0, n0)"
    and first: "line_record l0 n0 = Some (r0, n1)" "dict_get red0 (name_or_empty r0) = None"
    and mid: "custom_gff_parser (pre @ l0 # mid) n = Inr (red1, n2)"
    and later: "line_record l1 n2 = Some (r1, n3)" "name_or_empty r1 = name_or_empty r0"
  shows "\<exists>sp s0 e0 red2.
      dict_get red1 (name_or_empty r0)
        = Some (r0\<lparr>spans := Some sp, start := Some s0, stop := Some e0\<rparr>)
    \<and> custom_gff_parser (pre @ l0 # mid @ [l1]) n = Inr (red2, n3)
    \<and> red2 = dict_set red1 (name_or_empty r0)
               (r0\<lparr>spans := Some (sp @ [(l_start l1, l_stop l1)]),
                   start := Some (min s0 (l_start l1)), stop := Some (max e0 (l_stop l1))\<rparr>)
    \<and> dict_keys red2 = dict_keys red1"
proof -
  let ?k = "name_or_empty r0"
  note f0 = line_record_fields[OF first(1)]
  let ?x0 = "r0\<lparr>spans := Some [(l_start l0, l_stop l0)]\<rparr>"
  have ok0: "\<forall>k r. dict_get red0 k = Some r \<longrightarrow> span_ok r"
    using custom_gff_parser_ok[OF pre] by blast
  have st0: "parser_step (red0, n0) (make_record l0) = Inr (dict_set red0 ?k ?x0, n1)"
    by (rule step_new[OF first])
  have p1: "custom_gff_parser (pre @ [l0]) n = Inr (dict_set red0 ?k ?x0, n1)"
    by (simp add: custom_gff_parser_snoc pre st0)
  have ok1: "\<forall>k r. dict_get (dict_set red0 ?k ?x0) k = Some r \<longrightarrow> span_ok r"
    using custom_gff_parser_ok[OF p1] by blast
  have x0: "same_but_spans r0 ?x0"
    unfolding same_but_spans_def using f0 by (cases r0) auto
  from mid have "custom_gff_parser ((pre @ [l0]) @ mid) n = Inr (red1, n2)" by simp
  then have lp: "parser_loop (dict_set red0 ?k ?x0, n1) (map make_record mid) = Inr (red1, n2)"
    unfolding custom_gff_parser_append[of "pre @ [l0]" mid] p1 by simp
  from loop_keeps_identity[OF lp _ x0 ok1, of ?k]
  obtain x1 where x1: "dict_get red1 ?k = Some x1" "same_but_spans r0 x1"
    by (auto simp: dict_get_set)
  then obtain sp s0 e0 where sh: "x1 = r0\<lparr>spans := Some sp, start := Some s0, stop := Some e0\<rparr>"
    unfolding same_but_spans_def by blast
  have k1: "dict_get red1 (name_or_empty r1) = Some x1" using x1 later(2) by simp
  have st1: "parser_step (red1, n2) (make_record l1)
     = Inr (dict_set red1 (name_or_empty r1)
             (x1\<lparr>spans := Some (sp @ [(l_start l1, l_stop l1)]), start := Some (min s0 (l_start l1)),
                stop := Some (max e0 (l_stop l1))\<rparr>), n3)"
    by (rule step_known[OF later(1) k1]) (simp_all add: sh)
  have "custom_gff_parser ((pre @ l0 # mid) @ [l1]) n
     = Inr (dict_set red1 ?k
             (r0\<lparr>spans := Some (sp @ [(l_start l1, l_stop l1)]), start := Some (min s0 (l_start l1)),
                stop := Some (max e0 (l_stop l1))\<rparr>), n3)"
    unfolding custom_gff_parser_snoc[of "pre @ l0 # mid" l1] mid
    by (simp add: st1 later(2) sh)
  then have fin: "custom_gff_parser (pre @ l0 # mid @ [l1]) n
     = Inr (dict_set red1 ?k
             (r0\<lparr>spans := Some (sp @ [(l_start l1, l_stop l1)]), start := Some (min s0 (l_start l1)),
                stop := Some (max e0 (l_stop l1))\<rparr>), n3)"
    by simp
  show ?thesis
    using x1(1) fin dict_keys_set_known[OF x1(1)] unfolding sh by blast
qed

lemma exon1_first_record:
  "line_record exon1_first 0 =
     Some (\<lparr>seqid = ''1'', source = ''ensembl'', biotype = ''exon'', name = Some ''exon1'',
            parent_id = None, start = Some 10, stop = Some 20, spans = None, score = ''.'',
            strand = ''+'', phase = ''.'', comments = None, attrs = Some ''ID=exon1'',
            feature_id = None\<rparr>, 0)"
  by code_simp

lemma exon1_other_record:
  "line_record exon1_other 0 =
     Some (\<lparr>seqid = ''2'', source = ''havana'', biotype = ''CDS'', name = Some ''exon1'',
            parent_id = Some ''transcript:T9'', start = Some 30, stop = Some 40, spans = None,
            score = ''7'', strand = ''-'', phase = ''0'', comments = None,
            attrs = Some ''ID=exon1;Parent=transcript:T9'', feature_id = None\<rparr>, 0)"
  by code_simp

lemma exon1_first_parse:
  "custom_gff_parser [exon1_first] 0 =
     Inr ([(''exon1'',
            \<lparr>seqid = ''1'', source = ''ensembl'', biotype = ''exon'', name = Some ''exon1'',
             parent_id = None, start = Some 10, stop = Some 20, spans = Some [(10, 20)],
             score = ''.'', strand = ''+'', phase = ''.'', comments = None,
             attrs = Some ''ID=exon1'', feature_id = None\<rparr>)], 0)"
  by code_simp

text \<open>
  The second line differs from the first in seqid, source, type, score, strand, phase and
  attributes (it even has a parent); the result keeps the values of the first line.
\<close>

theorem custom_gff_parser_merges_by_name_witness:
  "custom_gff_parser [exon1_first, exon1_other] 0 =
     Inr ([(''exon1'',
            \<lparr>seqid = ''1'', source = ''ensembl'', biotype = ''exon'', name = Some ''exon1'',
             parent_id = None, start = Some 10, stop = Some 40,
             spans = Some [(10, 20), (30, 40)], score = ''.'', strand = ''+'', phase = ''.'',
             comments = None, attrs = Some ''ID=exon1'', feature_id = None\<rparr>)], 0)"
proof -
  let ?r0 = "\<lparr>seqid = ''1'', source = ''ensembl'', biotype = ''exon'', name = Some ''exon1'',
            parent_id = None, start = Some 10, stop = Some 20, spans = None, score = ''.'',
            strand = ''+'', phase = ''.'', comments = None, attrs = Some ''ID=exon1'',
            feature_id = None\<rparr>"
  let ?r1 = "\<lparr>seqid = ''2'', source = ''havana'', biotype = ''CDS'', name = Some ''exon1'',
            parent_id = Some ''transcript:T9'', start = Some 30, stop = Some 40, spans = None,
            score = ''7'', strand = ''-'', phase = ''0'', comments = None,
            attrs = Some ''ID=exon1;Parent=transcript:T9'', feature_id = None\<rparr>"
  have pre: "custom_gff_parser [] 0 = Inr ([], 0)" by (simp add: custom_gff_parser_def)
  have new: "dict_get ([] :: (string, gff_record) dict) (name_or_empty ?r0) = None"
    by (simp add: dict_get_def)
  have mid: "custom_gff_parser ([] @ exon1_first # []) 0 =
     Inr ([(''exon1'', ?r0\<lparr>spans := Some [(10, 20)]\<rparr>)], 0)"
    by (simp add: exon1_first_parse)
  have same: "name_or_empty ?r1 = name_or_empty ?r0" by (simp add: name_or_empty_def)
  from custom_gff_parser_merges_by_name[OF pre exon1_first_record new mid exon1_other_record same]
  obtain sp s0 e0 where
    a: "dict_get [(''exon1'', ?r0\<lparr>spans := Some [(10, 20)]\<rparr>)] (name_or_empty ?r0)
          = Some (?r0\<lparr>spans := Some sp, start := Some s0, stop := Some e0\<rparr>)"
    and b: "custom_gff_parser ([] @ exon1_first # [] @ [exon1_other]) 0
        = Inr (dict_set [(''exon1'', ?r0\<lparr>spans := Some [(10, 20)]\<rparr>)] (name_or_empty ?r0)
               (?r0\<lparr>spans := Some (sp @ [(l_start exon1_other, l_stop exon1_other)]),
                   start := Some (min s0 (l_start exon1_other)),
                   stop := Some (max e0 (l_stop exon1_other))\<rparr>), 0)"
    by blast
  from a have "sp = [(10, 20)] \<and> s0 = 10 \<and> e0 = 20"
    by (simp add: dict_get_def name_or_empty_def)
  with b show ?thesis
    by (simp add: name_or_empty_def dict_set_def exon1_other_def)
qed

text \<open>
  C9 as stated fails: parsing the line \<open>exon1_first\<close> twice gives, under \<open>exon1\<close>, a record
  whose span list holds (10, 20) twice, which is not the record a single occurrence gives.
\<close>

theorem custom_gff_parser_repeat_differs:
  "parsed_record (custom_gff_parser [exon1_first, exon1_first] 0) ''exon1''
     \<noteq> parsed_record (custom_gff_parser [exon1_first] 0) ''exon1''"
  by code_simp

text \<open>
  C9, amended: when a line yields an identifier that is already a key and its (start, stop)
  is already among the spans of the stored record, the parser returns without error, adds
  no key, and changes nothing in the stored record (start and stop included) but its span
  list, to which the span is appended once more.
\<close>

theorem custom_gff_parser_repeated_line:
  assumes p: "custom_gff_parser ls n = Inr (red, n1)"
    and lr: "line_record l n1 = Some (r2, n2)"
    and x: "dict_get red (name_or_empty r2) = Some x" "spans x = Some sp"
    and dup: "(l_start l, l_stop l) \<in> set sp"
  shows "custom_gff_parser (ls @ [l]) n
           = Inr (dict_set red (name_or_empty r2)
                    (x\<lparr>spans := Some (sp @ [(l_start l, l_stop l)])\<rparr>), n2)
       \<and> dict_keys (dict_set red (name_or_empty r2)
                    (x\<lparr>spans := Some (sp @ [(l_start l, l_stop l)])\<rparr>)) = dict_keys red"
proof -
  from custom_gff_parser_ok[OF p x(1)] x(2)
  have ne: "sp \<noteq> []" and s0: "start x = Some (Min (fst ` set sp))"
    and e0: "stop x = Some (Max (snd ` set sp))"
    unfolding span_ok_def by auto
  from dup have "l_start l \<in> fst ` set sp" "l_stop l \<in> snd ` set sp" by force+
  then have "Min (fst ` set sp) \<le> l_start l" "l_stop l \<le> Max (snd ` set sp)" by auto
  then have mm: "min (Min (fst ` set sp)) (l_start l) = Min (fst ` set sp)"
    "max (Max (snd ` set sp)) (l_stop l) = Max (snd ` set sp)" by auto
  have eq: "x\<lparr>spans := Some (sp @ [(l_start l, l_stop l)]), start := Some (Min (fst ` set sp)),
              stop := Some (Max (snd ` set sp))\<rparr>
      = x\<lparr>spans := Some (sp @ [(l_start l, l_stop l)])\<rparr>"
    using s0 e0 by (cases x) simp
  have "custom_gff_parser (ls @ [l]) n
           = Inr (dict_set red (name_or_empty r2)
                    (x\<lparr>spans := Some (sp @ [(l_start l, l_stop l)])\<rparr>), n2)"
    by (simp add: custom_gff_parser_snoc p step_known[OF lr x(1,2) s0 e0] mm eq)
  then show ?thesis using dict_keys_set_known[OF x(1)] by simp
qed

theorem custom_gff_parser_repeated_line_witness:
  "custom_gff_parser ([exon1_first] @ [exon1_first]) 0 =
     Inr ([(''exon1'',
            \<lparr>seqid = ''1'', source = ''ensembl'', biotype = ''exon'', name = Some ''exon1'',
             parent_id = None, start = Some 10, stop = Some 20,
             spans = Some [(10, 20), (10, 20)], score = ''.'', strand = ''+'', phase = ''.'',
             comments = None, attrs = Some ''ID=exon1'', feature_id = None\<rparr>)], 0)
   \<and> dict_keys [(''exon1'',
            \<lparr>seqid = ''1'', source = ''ensembl'', biotype = ''exon'', name = Some ''exon1'',
             parent_id = None, start = Some 10, stop = Some 20,
             spans = Some [(10, 20), (10, 20)], score = ''.'', strand = ''+'', phase = ''.'',
             comments = None, attrs = Some ''ID=exon1'', feature_id = None\<rparr>)] = [''exon1'']"
  using custom_gff_parser_repeated_line[OF exon1_first_parse exon1_first_record, of _ "[(10, 20)]"]
  by (simp add: name_or_empty_def dict_get_def dict_set_def dict_keys_def exon1_first_def)

subsection \<open>The feature store\<close>











subsection \<open>The homology store\<close>



lemma find_append_None: "find P xs = None \<Longrightarrow> find P (xs @ ys) = find P ys"
  by (induction xs) (auto split: if_splits)


lemma find_in_set: "find P xs = Some x \<Longrightarrow> x \<in> set xs \<and> P x"
  by (induction xs) (auto split: if_splits)











lemma insert_group_found:
  "first_match db rid G = Some (t, r, h) \<Longrightarrow>
     insert_group db rid G = db\<lparr>member_rows := member_rows db \<union> (\<lambda>g. (g, h)) ` G\<rparr>"
  by (simp add: insert_group_def get_homology_group_id_def)

lemma insert_group_new:
  "first_match db rid G = None \<Longrightarrow>
     insert_group db rid G =
       (fst (new_homology db rid))
         \<lparr>member_rows := member_rows db \<union> (\<lambda>g. (g, homology_seq db + 1)) ` G\<rparr>"
  by (simp add: insert_group_def get_homology_group_id_def new_homology_def)


lemma insert_group_frame:
  "relationship_rows (insert_group db rid G) = relationship_rows db
   \<and> relationship_types (insert_group db rid G) = relationship_types db"
  by (cases "first_match db rid G")
     (auto simp: insert_group_found insert_group_new new_homology_def)

lemma find_False: "(\<And>y. y \<in> set xs \<Longrightarrow> \<not> P y) \<Longrightarrow> find P xs = None"
  by (induction xs) auto

lemma first_match_rid: "first_match db rid G = Some (t, r, h) \<Longrightarrow> r = rid \<and> (\<exists>g\<in>G. (g, h) \<in> member_rows db)"
  unfolding first_match_def by (drule find_in_set) auto




lemma insert_group_bounded:
  assumes "\<forall>p\<in>member_rows db. snd p \<le> homology_seq db"
  shows "\<forall>p\<in>member_rows (insert_group db rid G). snd p \<le> homology_seq (insert_group db rid G)"
proof (cases "first_match db rid G")
  case None
  show ?thesis
    unfolding insert_group_new[OF None] using assms by (auto simp: new_homology_def)
next
  case (Some x)
  obtain t r h where x: "x = (t, r, h)" by (cases x) auto
  from first_match_rid[OF Some[unfolded x]] assms have "h \<le> homology_seq db" by force
  then show ?thesis
    unfolding insert_group_found[OF Some[unfolded x]] using assms by auto
qed




lemma make_relationship_type_id_ok:
  assumes "db_ok db" "make_relationship_type_id db t = (db0, rid)"
  shows "(rid, t) \<in> set (relationship_rows db0) \<and> dict_get (relationship_types db0) t = Some rid
     \<and> db_ok db0 \<and> member_rows db0 = member_rows db \<and> homology_rows db0 = homology_rows db
     \<and> homology_seq db0 = homology_seq db"
proof (cases "dict_get (relationship_types db) t")
  case None
  with assms show ?thesis
    by (fastforce simp: make_relationship_type_id_def db_ok_def dict_get_set split: if_splits)
next
  case (Some i)
  with assms show ?thesis
    by (auto simp: make_relationship_type_id_def db_ok_def)
qed



lemma insert_group_db_ok: "db_ok db \<Longrightarrow> db_ok (insert_group db rid G)"
  using insert_group_bounded[of db rid G] unfolding db_ok_def
  by (simp add: insert_group_frame)

lemma add_groups_db_ok: "db_ok db \<Longrightarrow> db_ok (fst (add_groups db rid t gs))"
  by (induction gs arbitrary: db) (auto simp: insert_group_db_ok)

lemma add_records_db_ok: "db_ok db \<Longrightarrow> db_ok (fst (add_records db gs t))"
proof -
  assume ok: "db_ok db"
  obtain db0 rid where m: "make_relationship_type_id db t = (db0, rid)"
    by (cases "make_relationship_type_id db t") auto
  from make_relationship_type_id_ok[OF ok m] have "db_ok db0" by simp
  then show ?thesis by (simp add: add_records_def m add_groups_db_ok)
qed





lemma add_records_single_group:
  "fst (add_records empty_homology_db [\<lparr>relationship = t, gene_ids = G\<rparr>] t) =
     \<lparr>relationship_rows = [(1, t)], homology_rows = [(1, 1)], homology_seq = 1,
      member_rows = (\<lambda>g. (g, 1)) ` G, relationship_types = [(t, 1)]\<rparr>"
proof -
  have m: "make_relationship_type_id empty_homology_db t =
      (\<lparr>relationship_rows = [(1, t)], homology_rows = [], homology_seq = 0,
        member_rows = {}, relationship_types = [(t, 1)]\<rparr>, 1)"
    by (simp add: make_relationship_type_id_def empty_homology_db_def dict_get_def dict_set_def)
  have f: "first_match \<lparr>relationship_rows = [(1, t)], homology_rows = [], homology_seq = 0,
        member_rows = {}, relationship_types = [(t, 1)]\<rparr> 1 G = None"
    by (simp add: first_match_def group_headers_def)
  show ?thesis
    using insert_group_new[OF f] by (simp add: add_records_def m new_homology_def)
qed

lemma get_related_to_single_group:
  assumes "g \<in> G"
  shows "get_related_to (fst (add_records empty_homology_db [\<lparr>relationship = t, gene_ids = G\<rparr>] t)) g t = G"
proof -
  have "fst ` Set.filter (\<lambda>p. snd p = 1) ((\<lambda>g. (g, 1::nat)) ` G) = G"
    by force
  with assms show ?thesis
    unfolding add_records_single_group
    by (simp add: group_headers_def get_related_to_def members_of_def)
qed

lemma get_related_to_absent:
  assumes "\<forall>hid. (g, hid) \<notin> member_rows db"
  shows "get_related_to db g t = {}"
proof -
  have "find (\<lambda>(t', r, hid). t' = t \<and> (g, hid) \<in> member_rows db) (group_headers db) = None"
    by (rule find_False) (use assms in auto)
  then show ?thesis by (simp add: get_related_to_def)
qed

text \<open>
  C4 as stated fails: after the group \<open>{g1, g2, g3}\<close> of type \<open>ortho\<close> has been inserted,
  \<open>get_related_to(g1, "ortho")\<close> is not \<open>{g2, g3}\<close>.
\<close>

theorem get_related_to_includes_query:
  "get_related_to db_ortho ''g1'' ''ortho'' \<noteq> {''g2'', ''g3''}"
  by code_simp

text \<open>
  C4, amended: after the group \<open>{g1, g2, g3}\<close> of type \<open>ortho\<close> has been inserted,
  \<open>get_related_to(g1, "ortho")\<close> returns \<open>{g1, g2, g3}\<close>, the whole group, \<open>g1\<close> included; the
  same holds for any group inserted into the empty store and any of its members. For a gene
  id without a member row the result is empty, and no error is raised.
\<close>

theorem get_related_to_whole_group:
  "get_related_to db_ortho ''g1'' ''ortho'' = {''g1'', ''g2'', ''g3''}
   \<and> (\<forall>G g t. g \<in> G \<longrightarrow>
        get_related_to (fst (add_records empty_homology_db [\<lparr>relationship = t, gene_ids = G\<rparr>] t)) g t
          = G)
   \<and> (\<forall>db g t. (\<forall>hid. (g, hid) \<notin> member_rows db) \<longrightarrow> get_related_to db g t = {})"
proof (intro conjI allI impI)
  show "get_related_to db_ortho ''g1'' ''ortho'' = {''g1'', ''g2'', ''g3''}"
    by code_simp
next
  fix G :: "gene_id set" and g t assume "g \<in> G"
  then show "get_related_to (fst (add_records empty_homology_db [\<lparr>relationship = t, gene_ids = G\<rparr>] t)) g t = G"
    by (rule get_related_to_single_group)
next
  fix db :: homology_db and g t assume "\<forall>hid. (g, hid) \<notin> member_rows db"
  then show "get_related_to db g t = {}" by (rule get_related_to_absent)
qed

theorem get_related_to_whole_group_witness:
  "''g2'' \<in> {''g1'', ''g2'', ''g3''}
   \<and> get_related_to (fst (add_records empty_homology_db
         [\<lparr>relationship = ''ortho'', gene_ids = {''g1'', ''g2'', ''g3''}\<rparr>] ''ortho'')) ''g2'' ''ortho''
       = {''g1'', ''g2'', ''g3''}
   \<and> (\<forall>hid. (''g9'', hid) \<notin> member_rows db_ortho)
   \<and> get_related_to db_ortho ''g9'' ''ortho'' = {}"
proof -
  have m: "member_rows db_ortho = {(''g1'', 1), (''g2'', 1), (''g3'', 1)}"
    by code_simp
  have a: "\<forall>hid. (''g9'', hid) \<notin> member_rows db_ortho"
    unfolding m by simp
  have b: "''g2'' \<in> {''g1'', ''g2'', ''g3''}" by simp
  note th = get_related_to_whole_group
  from th[THEN conjunct2, THEN conjunct1, rule_format, OF b]
    th[THEN conjunct2, THEN conjunct2, rule_format, OF a[rule_format]] a b
  show ?thesis by simp
qed

subsection \<open>The relationship builder\<close>

text \<open>
  C3, at an annotation of one gene with two transcripts and one CDS per transcript, in
  which every CDS names a present mRNA and every mRNA names the present gene: the records
  are as listed, and the mapping returned for them gives the gene only the CDS and the mRNA
  of the CDS visited last. \<open>genes.get(gene.stableid, set())\<close> looks the set up under the
  stable id \<open>G1\<close> while it is stored under the record named \<open>gene:G1\<close>, so each CDS starts
  from an empty set and \<open>cds:P1\<close> and \<open>transcript:T1\<close> are lost.
\<close>

theorem make_gene_relationships_keeps_last_cds:
  "map (\<lambda>r. (name r, biotype r, parent_id r)) gene_g1_records =
     [(Some ''gene:G1'', ''gene'', None),
      (Some ''transcript:T1'', ''mrna'', Some ''gene:G1''),
      (Some ''transcript:T2'', ''mrna'', Some ''gene:G1''),
      (Some ''cds:P1'', ''cds'', Some ''transcript:T1''),
      (Some ''cds:P2'', ''cds'', Some ''transcript:T2'')]
   \<and> relationship_names (make_gene_relationships gene_g1_records)
     = Some [(Some ''gene:G1'', [Some ''cds:P2'', Some ''transcript:T2''])]"
  by code_simp

subsection \<open>The merge engine\<close>

text \<open>
  C2, at the partial clusterings \<open>{a, b}\<close>, \<open>{c, d}\<close> and \<open>{b, c}\<close> of type \<open>ortho\<close>: merging
  the first two and then the third leaves two overlapping groups (which two depends on
  whether the shared id \<open>b\<close> or \<open>c\<close> is visited first), while merging the first with the
  merge of the other two gives the one group \<open>{a, b, c, d}\<close>. The two ways of association
  differ under either order.
\<close>

theorem merge_grouped_not_associative:
  "member_sets (merge_left iter_up part_ab part_cd part_bc) ''ortho''
     = Some {{''a'', ''b'', ''c''}, {''c'', ''d''}}
   \<and> member_sets (merge_left iter_down part_ab part_cd part_bc) ''ortho''
     = Some {{''b'', ''c'', ''d''}, {''a'', ''b''}}
   \<and> member_sets (merge_right iter_up part_ab part_cd part_bc) ''ortho''
     = Some {{''a'', ''b'', ''c'', ''d''}}
   \<and> member_sets (merge_right iter_down part_ab part_cd part_bc) ''ortho''
     = Some {{''a'', ''b'', ''c'', ''d''}}"
  by code_simp

end
